theory Spec2Isabelle
  imports Main
begin

section \<open>Python values, text and exceptions\<close>

text \<open>
  Text is a \<^typ>\<open>string\<close>; a character stands for the code point of the same number
  (0 to 255).  An exception is a value: its class and the text that \<open>str(e)\<close> gives.
\<close>

datatype exn_kind =
  KeyError | TypeError | ValueError | UnicodeDecodeError | JSONDecodeError
  | ReError | OSError | ValidationError | OtherError

datatype pyexn = PyExn exn_kind string

abbreviation nl :: string where
  "nl \<equiv> [CHR 0x0A]"

text \<open>\<open>sep.join(xs)\<close>\<close>

fun join :: "string \<Rightarrow> string list \<Rightarrow> string" where
  "join sep [] = []"
| "join sep [x] = x"
| "join sep (x # y # ys) = x @ sep @ join sep (y # ys)"

text \<open>\<open>a or b\<close> on text: the empty text is falsy.\<close>

definition py_or :: "string \<Rightarrow> string \<Rightarrow> string" where
  "py_or a b = (if a = [] then b else a)"

text \<open>\<open>d.get(key, default)\<close>, on the value a key may hold.\<close>

definition get_default :: "'a option \<Rightarrow> 'a \<Rightarrow> 'a" where
  "get_default v d = (case v of None \<Rightarrow> d | Some x \<Rightarrow> x)"

text \<open>Truthiness of an optional text: \<open>None\<close> and the empty text are falsy.\<close>

definition truthy_opt :: "string option \<Rightarrow> bool" where
  "truthy_opt v = (get_default v [] \<noteq> [])"

text \<open>\<open>s.startswith(p)\<close>\<close>

definition startswith :: "string \<Rightarrow> string \<Rightarrow> bool" where
  "startswith s p = (take (length p) s = p)"

text \<open>Decimal numerals, as \<open>str(n)\<close> prints a non-negative integer.\<close>

definition digit_char :: "nat \<Rightarrow> char" where
  "digit_char d = ''0123456789'' ! d"

fun show_nat :: "nat \<Rightarrow> string" where
  "show_nat n = (if n < 10 then [digit_char n] else show_nat (n div 10) @ [digit_char (n mod 10)])"

declare show_nat.simps [simp del]

definition show_int :: "int \<Rightarrow> string" where
  "show_int i = (if i < 0 then CHR ''-'' # show_nat (nat (- i)) else show_nat (nat i))"

section \<open>JSON values, \<open>json.dumps\<close> and \<open>json.loads\<close>\<close>

text \<open>
  The values a tool receives in its arguments and that \<open>json.dumps\<close> and \<open>json.loads\<close>
  exchange: \<open>None\<close>, booleans, integers, text, lists and dictionaries with text keys (in
  insertion order).  Floating-point numbers are outside this model.
\<close>

datatype json =
  JNull | JBool bool | JInt int | JStr string | JArr "json list" | JObj "(string \<times> json) list"

text \<open>Truthiness, as \<open>x or default\<close> and \<open>if x\<close> test it.\<close>

fun truthy :: "json \<Rightarrow> bool" where
  "truthy JNull = False"
| "truthy (JBool b) = b"
| "truthy (JInt i) = (i \<noteq> 0)"
| "truthy (JStr s) = (s \<noteq> [])"
| "truthy (JArr xs) = (xs \<noteq> [])"
| "truthy (JObj kvs) = (kvs \<noteq> [])"

definition json_or :: "json \<Rightarrow> json \<Rightarrow> json" where
  "json_or a b = (if truthy a then a else b)"

text \<open>A Python dictionary holds each key once, at every depth.\<close>

fun wf_json :: "json \<Rightarrow> bool" where
  "wf_json (JArr xs) = list_all wf_json xs"
| "wf_json (JObj kvs) = (distinct (map fst kvs) \<and> list_all (\<lambda>kv. wf_json (snd kv)) kvs)"
| "wf_json v = True"

subsection \<open>Writing: \<open>json.dumps(obj)\<close> with its default separators and \<open>ensure_ascii\<close>\<close>

abbreviation dquote :: char where
  "dquote \<equiv> CHR 0x22"

abbreviation bslash :: char where
  "bslash \<equiv> CHR 0x5C"

definition hex_digit :: "nat \<Rightarrow> char" where
  "hex_digit d = ''0123456789abcdef'' ! d"

text \<open>
  The replacement of one character inside a string: the short escapes, the printable
  ASCII characters as they are, and \<open>\u00xx\<close> for the rest.
\<close>

definition escape_char :: "char \<Rightarrow> string" where
  "escape_char c =
     (if c = bslash then [bslash, bslash]
      else if c = dquote then [bslash, dquote]
      else if c = CHR 0x08 then [bslash, CHR ''b'']
      else if c = CHR 0x0C then [bslash, CHR ''f'']
      else if c = CHR 0x0A then [bslash, CHR ''n'']
      else if c = CHR 0x0D then [bslash, CHR ''r'']
      else if c = CHR 0x09 then [bslash, CHR ''t'']
      else if 0x20 \<le> (of_char c :: nat) \<and> (of_char c :: nat) \<le> 0x7E then [c]
      else [bslash, CHR ''u'', CHR ''0'', CHR ''0'',
            hex_digit (of_char c div 16), hex_digit (of_char c mod 16)])"

definition encode_string :: "string \<Rightarrow> string" where
  "encode_string s = dquote # concat (map escape_char s) @ [dquote]"

fun json_dumps :: "json \<Rightarrow> string" where
  "json_dumps JNull = ''null''"
| "json_dumps (JBool b) = (if b then ''true'' else ''false'')"
| "json_dumps (JInt i) = show_int i"
| "json_dumps (JStr s) = encode_string s"
| "json_dumps (JArr xs) = ''['' @ join '', '' (map json_dumps xs) @ '']''"
| "json_dumps (JObj kvs) =
     ''{'' @ join '', '' (map (\<lambda>kv. encode_string (fst kv) @ '': '' @ json_dumps (snd kv)) kvs) @ ''}''"


subsection \<open>Reading: \<open>json.loads(s)\<close>\<close>

definition is_ws :: "char \<Rightarrow> bool" where
  "is_ws c = (c = CHR '' '' \<or> c = CHR 0x09 \<or> c = CHR 0x0A \<or> c = CHR 0x0D)"

definition skip_ws :: "string \<Rightarrow> string" where
  "skip_ws s = dropWhile is_ws s"

definition hex_val :: "char \<Rightarrow> nat option" where
  "hex_val c =
     (let n = (of_char c :: nat) in
      if 48 \<le> n \<and> n \<le> 57 then Some (n - 48)
      else if 97 \<le> n \<and> n \<le> 102 then Some (n - 87)
      else if 65 \<le> n \<and> n \<le> 70 then Some (n - 55)
      else None)"

definition unescape :: "char \<Rightarrow> char option" where
  "unescape e =
     (if e = dquote then Some dquote
      else if e = bslash then Some bslash
      else if e = CHR ''/'' then Some CHR ''/''
      else if e = CHR ''b'' then Some (CHR 0x08)
      else if e = CHR ''f'' then Some (CHR 0x0C)
      else if e = CHR ''n'' then Some (CHR 0x0A)
      else if e = CHR ''r'' then Some (CHR 0x0D)
      else if e = CHR ''t'' then Some (CHR 0x09)
      else None)"

text \<open>
  Four hexadecimal digits after \<open>\u\<close>.  A code point above 255 has no character in this
  model of text, and the reader stops there as it does on malformed input.
\<close>

definition decode_uXXXX :: "char \<Rightarrow> char \<Rightarrow> char \<Rightarrow> char \<Rightarrow> char option" where
  "decode_uXXXX a b c d =
     (case (hex_val a, hex_val b, hex_val c, hex_val d) of
        (Some h3, Some h2, Some h1, Some h0) \<Rightarrow>
          (let uni = ((h3 * 16 + h2) * 16 + h1) * 16 + h0 in
           if uni < 256 then Some (char_of uni) else None)
      | _ \<Rightarrow> None)"

text \<open>\<open>scanstring\<close>, from the character after the opening quote (strict mode).\<close>

fun scanstring :: "string \<Rightarrow> (string \<times> string) option" where
  "scanstring [] = None"
| "scanstring (c # cs) =
     (if c = dquote then Some ([], cs)
      else if c = bslash then
        (case cs of
           [] \<Rightarrow> None
         | e # r \<Rightarrow>
             if e = CHR ''u'' then
               (case r of
                  a # b # c # d # r' \<Rightarrow>
                    (case decode_uXXXX a b c d of
                       None \<Rightarrow> None
                     | Some ch \<Rightarrow> map_option (\<lambda>(t, r''). (ch # t, r'')) (scanstring r'))
                | _ \<Rightarrow> None)
             else
               (case unescape e of
                  None \<Rightarrow> None
                | Some ch \<Rightarrow> map_option (\<lambda>(t, r'). (ch # t, r')) (scanstring r)))
      else if (of_char c :: nat) < 0x20 then None
      else map_option (\<lambda>(t, r). (c # t, r)) (scanstring cs))"

definition is_digit :: "char \<Rightarrow> bool" where
  "is_digit c = (48 \<le> (of_char c :: nat) \<and> (of_char c :: nat) \<le> 57)"

definition nat_of_digits :: "string \<Rightarrow> nat" where
  "nat_of_digits ds = foldl (\<lambda>a c. 10 * a + (of_char c - 48)) 0 ds"

text \<open>
  A fraction or an exponent after the integer part makes the number a float; the reader of
  this model stops there, floats being outside it (so are \<open>NaN\<close> and \<open>Infinity\<close>).
\<close>

definition is_float_tail :: "string \<Rightarrow> bool" where
  "is_float_tail s =
     (case s of
        [] \<Rightarrow> False
      | c # r \<Rightarrow>
          if c = CHR ''.'' then (case r of [] \<Rightarrow> False | d # _ \<Rightarrow> is_digit d)
          else if c = CHR ''e'' \<or> c = CHR ''E'' then
            (case r of
               [] \<Rightarrow> False
             | d # r' \<Rightarrow>
                 if d = CHR ''+'' \<or> d = CHR ''-'' then (case r' of [] \<Rightarrow> False | d' # _ \<Rightarrow> is_digit d')
                 else is_digit d)
          else False)"

definition scan_number :: "string \<Rightarrow> (json \<times> string) option" where
  "scan_number s =
     (let negative = startswith s ''-'';
          r = (if negative then tl s else s)
      in case r of
           [] \<Rightarrow> None
         | d # ds \<Rightarrow>
             if \<not> is_digit d then None
             else
               (let integer = (if d = CHR ''0'' then [d] else takeWhile is_digit r);
                    rest = drop (length integer) r
                in if is_float_tail rest then None
                   else Some (JInt (if negative then - int (nat_of_digits integer)
                                    else int (nat_of_digits integer)), rest)))"

text \<open>\<open>d[k] = v\<close> and \<open>dict(pairs)\<close>: a later pair replaces the value of an earlier key.\<close>

fun dict_set :: "string \<Rightarrow> 'v \<Rightarrow> (string \<times> 'v) list \<Rightarrow> (string \<times> 'v) list" where
  "dict_set k v [] = [(k, v)]"
| "dict_set k v (kv # d) = (if fst kv = k then (k, v) # d else kv # dict_set k v d)"

definition dict_of_pairs :: "(string \<times> 'v) list \<Rightarrow> (string \<times> 'v) list" where
  "dict_of_pairs pairs = foldl (\<lambda>d kv. dict_set (fst kv) (snd kv) d) [] pairs"

text \<open>
  The scanner: a value, the elements of an array after its bracket, the members of an
  object after its brace.  Each call consumes a character, so the recursion is bounded by
  the length of the input, which \<open>json_loads\<close> passes as the first argument.
\<close>

fun scan_once :: "nat \<Rightarrow> string \<Rightarrow> (json \<times> string) option"
  and scan_array :: "nat \<Rightarrow> string \<Rightarrow> (json list \<times> string) option"
  and scan_object :: "nat \<Rightarrow> string \<Rightarrow> ((string \<times> json) list \<times> string) option"
where
  "scan_once 0 s = None"
| "scan_once (Suc n) s =
     (case s of
        [] \<Rightarrow> None
      | c # cs \<Rightarrow>
          if c = dquote then map_option (\<lambda>(t, r). (JStr t, r)) (scanstring cs)
          else if c = CHR ''{'' then
            (if startswith (skip_ws cs) ''}'' then Some (JObj [], tl (skip_ws cs))
             else map_option (\<lambda>(pairs, r). (JObj (dict_of_pairs pairs), r)) (scan_object n (skip_ws cs)))
          else if c = CHR ''['' then
            (if startswith (skip_ws cs) '']'' then Some (JArr [], tl (skip_ws cs))
             else map_option (\<lambda>(values, r). (JArr values, r)) (scan_array n (skip_ws cs)))
          else if startswith s ''null'' then Some (JNull, drop 4 s)
          else if startswith s ''true'' then Some (JBool True, drop 4 s)
          else if startswith s ''false'' then Some (JBool False, drop 5 s)
          else scan_number s)"
| "scan_array 0 s = None"
| "scan_array (Suc n) s =
     (case scan_once n s of
        None \<Rightarrow> None
      | Some (v, r) \<Rightarrow>
          (case skip_ws r of
             [] \<Rightarrow> None
           | c # r' \<Rightarrow>
               if c = CHR '']'' then Some ([v], r')
               else if c = CHR '','' then
                 map_option (\<lambda>(values, r''). (v # values, r'')) (scan_array n (skip_ws r'))
               else None))"
| "scan_object 0 s = None"
| "scan_object (Suc n) s =
     (case s of
        [] \<Rightarrow> None
      | q # cs \<Rightarrow>
          if q \<noteq> dquote then None
          else
            (case scanstring cs of
               None \<Rightarrow> None
             | Some (key, r) \<Rightarrow>
                 (case skip_ws r of
                    [] \<Rightarrow> None
                  | c # r1 \<Rightarrow>
                      if c \<noteq> CHR '':'' then None
                      else
                        (case scan_once n (skip_ws r1) of
                           None \<Rightarrow> None
                         | Some (v, r2) \<Rightarrow>
                             (case skip_ws r2 of
                                [] \<Rightarrow> None
                              | d # r3 \<Rightarrow>
                                  if d = CHR ''}'' then Some ([(key, v)], r3)
                                  else if d = CHR '','' then
                                    map_option (\<lambda>(pairs, r4). ((key, v) # pairs, r4))
                                      (scan_object n (skip_ws r3))
                                  else None)))))"

definition json_loads :: "string \<Rightarrow> pyexn + json" where
  "json_loads s =
     (case scan_once (Suc (length s)) (skip_ws s) of
        None \<Rightarrow> Inl (PyExn JSONDecodeError ''Expecting value'')
      | Some (obj, r) \<Rightarrow>
          if skip_ws r = [] then Inr obj else Inl (PyExn JSONDecodeError ''Extra data''))"

section \<open>The crew's orchestration tools (agents/crew/tools.py)\<close>

subsection \<open>The worker pool\<close>

datatype task_status = Pending | Running | Completed | Failed | Cancelled | Blocked

record task_record =
  w_id :: string
  w_task :: string
  w_priority :: int
  w_depends_on :: "string list"
  w_status :: task_status
  w_result :: "string option"
  w_error :: "string option"
  w_tools_used :: "string list"

record worker_pool =
  workers :: "task_record list"
  next_id :: nat
  finish_tokens :: int

text \<open>
  Modelled from the spec: \<open>get_workers\<close> of the worker pool (worker_pool.py is not among
  the sources), which "exposes every registered Task Record (any status)".
\<close>

definition get_workers :: "worker_pool \<Rightarrow> task_record list" where
  "get_workers p = workers p"

text \<open>
  Modelled from the spec: the dependency edges of the pool, walked from a task id, for the
  cycle check of \<open>spawn\<close> ("detectable via graph traversal over the dependency edges").
  The walk is bounded by the number of records.
\<close>

fun reaches :: "nat \<Rightarrow> task_record list \<Rightarrow> string \<Rightarrow> string \<Rightarrow> bool" where
  "reaches 0 ws src dst = (src = dst)"
| "reaches (Suc n) ws src dst =
     (src = dst \<or>
      list_ex (\<lambda>w. w_id w = src \<and> list_ex (\<lambda>d. reaches n ws d dst) (w_depends_on w)) ws)"

text \<open>
  Modelled from the spec: \<open>spawn(description, priority, dependencies)\<close> of the worker pool
  (worker_pool.py is not among the sources).  It "validates dependency ids (existence,
  acyclicity), creates a Task Record in pending status with a freshly allocated unique id,
  registers it, and returns the id"; it "fails with a validation error if description is
  empty or a dependency id is unknown/cyclic".  Ids are "a monotonically increasing
  sequence rendered as agent-n".
\<close>

definition pool_spawn ::
  "string \<Rightarrow> int \<Rightarrow> string list \<Rightarrow> worker_pool \<Rightarrow> pyexn + (string \<times> worker_pool)" where
  "pool_spawn description priority dependencies p =
     (let agent_id = ''agent-'' @ show_nat (next_id p) in
      if description = [] then Inl (PyExn ValidationError ''description is empty'')
      else if list_ex (\<lambda>d. \<not> list_ex (\<lambda>w. w_id w = d) (workers p)) dependencies
        then Inl (PyExn ValidationError ''unknown dependency'')
      else if list_ex (\<lambda>d. reaches (length (workers p)) (workers p) d agent_id) dependencies
        then Inl (PyExn ValidationError ''cyclic dependency'')
      else Inr (agent_id,
        p\<lparr>workers := workers p @
             [\<lparr>w_id = agent_id, w_task = description, w_priority = priority,
               w_depends_on = dependencies, w_status = Pending, w_result = None,
               w_error = None, w_tools_used = []\<rparr>],
           next_id := Suc (next_id p)\<rparr>))"

subsection \<open>Collaborators and the session state\<close>

record llm_response =
  content :: string
  usage :: "(string \<times> int) list option"

text \<open>
  The calls a tool makes on its collaborators, in order: the pool's \<open>wait_for\<close> and
  \<open>spawn\<close>, and the language model's \<open>generate\<close> (system prompt, messages as role and
  content, tools).
\<close>

datatype call =
  WaitFor "string list option"
  | Spawn string int "string list"
  | Generate string "(string \<times> string) list" "string list"

record crew_state =
  pool :: worker_pool
  calls :: "call list"

text \<open>
  The collaborators whose code is not among the sources are parameters: what
  \<open>pool.wait_for(ids)\<close> leaves of the pool once the awaited tasks are terminal (the mapping
  it returns is not used by \<open>finish\<close>), and what \<open>llm.generate\<close> answers or raises.
\<close>

record crew_env =
  wait_for :: "string list option \<Rightarrow> worker_pool \<Rightarrow> worker_pool"
  generate :: "string \<Rightarrow> (string \<times> string) list \<Rightarrow> string list \<Rightarrow> pyexn + llm_response"

subsection \<open>spawn_agent\<close>

text \<open>The arguments as the tool's schema types them; any key may be absent.\<close>

record spawn_args =
  arg_task :: "string option"
  arg_priority :: "int option"
  arg_depends_on :: "string list option"

definition spawn_agent_fn :: "spawn_args \<Rightarrow> crew_state \<Rightarrow> (pyexn + string) \<times> crew_state" where
  "spawn_agent_fn arguments st =
     (let task = get_default (arg_task arguments) [];
          priority = get_default (arg_priority arguments) 1;
          depends_on = get_default (arg_depends_on arguments) []
      in if task = [] then (Inr ''Error: task is required'', st)
         else
           (let st1 = st\<lparr>calls := calls st @ [Spawn task priority depends_on]\<rparr> in
            case pool_spawn task priority depends_on (pool st1) of
              Inl e \<Rightarrow> (Inl e, st1)
            | Inr (agent_id, p) \<Rightarrow>
                (Inr (''Spawned '' @ agent_id @ '': '' @ task), st1\<lparr>pool := p\<rparr>)))"

subsection \<open>finish\<close>

record finish_args =
  arg_context :: "string option"

text \<open>The loop over the workers that gathers the labelled blocks.\<close>

fun gather_results :: "task_record list \<Rightarrow> string list" where
  "gather_results [] = []"
| "gather_results (w # ws) =
     (if truthy_opt (w_result w)
        then [''## '' @ w_id w @ '': '' @ w_task w @ nl @ get_default (w_result w) []]
      else if truthy_opt (w_error w)
        then [''## '' @ w_id w @ '': '' @ w_task w @ nl @ ''Error: '' @ get_default (w_error w) []]
      else []) @ gather_results ws"

definition synthesis_system_prompt :: string where
  "synthesis_system_prompt =
     ''You are synthesizing penetration test results. Be factual, clear, and concise.''"

definition synthesis_prompt :: "string \<Rightarrow> string list \<Rightarrow> string" where
  "synthesis_prompt context results_text =
     ''Synthesize these agent findings into a clear, concise summary.'' @ nl @ nl @
     ''Context: '' @ py_or context ''Penetration test task completed.'' @ nl @ nl @
     ''Agent Results:'' @ nl @
     join nl results_text @ nl @ nl @
     ''Provide a unified summary of what was accomplished and key findings.''"

definition finish_fn ::
  "crew_env \<Rightarrow> finish_args \<Rightarrow> crew_state \<Rightarrow> (pyexn + string) \<times> crew_state" where
  "finish_fn env arguments st =
     (let context = get_default (arg_context arguments) [];
          st1 = st\<lparr>pool := wait_for env None (pool st), calls := calls st @ [WaitFor None]\<rparr>;
          ws = get_workers (pool st1)
      in if ws = [] then (Inr (py_or context ''Task completed. No agents were spawned.''), st1)
         else
           (let results_text = gather_results ws in
            if results_text = []
              then (Inr (py_or context ''Task completed. Agents ran but produced no results.''), st1)
            else
              (let prompt = synthesis_prompt context results_text;
                   messages = [(''user'', prompt)];
                   st2 = st1\<lparr>calls := calls st1 @ [Generate synthesis_system_prompt messages []]\<rparr>
               in case generate env synthesis_system_prompt messages [] of
                    Inl e \<Rightarrow> (Inl e, st2)
                  | Inr response \<Rightarrow>
                      (Inr (content response),
                       (case usage response of
                          None \<Rightarrow> st2
                        | Some u \<Rightarrow>
                            if u = [] then st2
                            else st2\<lparr>pool := (pool st2)\<lparr>finish_tokens :=
                                   get_default (map_of u ''total_tokens'') 0\<rparr>\<rparr>)))))"

subsection \<open>formulate_strategy\<close>

record candidate =
  c_id :: "string option"
  c_name :: "string option"
  c_pros :: "string option"
  c_cons :: "string option"
  c_risk :: "string option"

record strategy_args =
  arg_problem :: "string option"
  arg_candidates :: "candidate list option"
  arg_selected_id :: "string option"
  arg_rationale :: "string option"
  arg_feasible :: "bool option"

text \<open>\<open>str(c.get(key))\<close>: an absent key prints as \<open>None\<close>.\<close>

definition str_opt :: "string option \<Rightarrow> string" where
  "str_opt v = (case v of None \<Rightarrow> ''None'' | Some s \<Rightarrow> s)"

text \<open>The four lines the loop appends for one candidate.\<close>

definition candidate_lines :: "string \<Rightarrow> candidate \<Rightarrow> string list" where
  "candidate_lines selected_id c =
     (let mark = (if c_id c = Some selected_id then ''(SELECTED)'' else []) in
      [''- **'' @ str_opt (c_name c) @ ''** '' @ mark,
       ''  - Pros: '' @ str_opt (c_pros c),
       ''  - Cons: '' @ str_opt (c_cons c),
       ''  - Risk: '' @ str_opt (c_risk c)])"

definition formulate_strategy_fn ::
  "strategy_args \<Rightarrow> crew_state \<Rightarrow> (pyexn + string) \<times> crew_state" where
  "formulate_strategy_fn arguments st =
     (let problem = get_default (arg_problem arguments) [];
          candidates = get_default (arg_candidates arguments) [];
          selected_id = get_default (arg_selected_id arguments) [];
          rationale = get_default (arg_rationale arguments) [];
          feasible = get_default (arg_feasible arguments) True
      in if problem = [] then (Inr ''Error: problem is required.'', st)
         else if \<not> feasible then
           (Inr (''## Strategic Decision: TERMINATE MISSION'' @ nl @
                 ''**Problem:** '' @ problem @ nl @
                 ''**Rationale:** '' @ rationale @ nl @ nl @
                 ''Mission marked as infeasible.''), st)
         else if candidates = [] \<or> selected_id = [] then
           (Inr ''Error: candidates and selected_id are required when feasible=True.'', st)
         else
           (case find (\<lambda>c. c_id c = Some selected_id) candidates of
              None \<Rightarrow>
                (Inr (''Error: Selected ID '' @ [CHR 0x27] @ selected_id @ [CHR 0x27] @
                      '' not found in candidates.''), st)
            | Some selected \<Rightarrow>
                (Inr (join nl
                   ([''## Strategic Decision: '' @
                       get_default (c_name selected) ''Unknown'',
                     ''**Problem:** '' @ problem,
                     [],
                     ''**Considered Options:**''] @
                    concat (map (candidate_lines selected_id) candidates) @
                    [[], ''**Rationale:** '' @ rationale])), st)))"

section \<open>The task completion tool (tools/completion)\<close>

definition TASK_COMPLETE_SIGNAL :: string where
  "TASK_COMPLETE_SIGNAL = ''__TASK_COMPLETE__''"

record completion_report =
  status :: json
  summary :: json
  findings :: json
  artifacts :: json
  recommendations :: json

definition CompletionReport :: "json \<Rightarrow> json \<Rightarrow> json \<Rightarrow> json \<Rightarrow> json \<Rightarrow> completion_report" where
  "CompletionReport status_arg summary_arg findings_arg artifacts_arg recommendations_arg =
     \<lparr>status = status_arg, summary = summary_arg,
      findings = json_or findings_arg (JArr []),
      artifacts = json_or artifacts_arg (JArr []),
      recommendations = json_or recommendations_arg (JArr [])\<rparr>"

definition to_dict :: "completion_report \<Rightarrow> (string \<times> json) list" where
  "to_dict self =
     [(''status'', status self), (''summary'', summary self), (''findings'', findings self),
      (''artifacts'', artifacts self), (''recommendations'', recommendations self)]"

definition to_json :: "completion_report \<Rightarrow> string" where
  "to_json self = json_dumps (JObj (to_dict self))"

text \<open>
  \<open>cls(**json.loads(json_str))\<close>: the parsed value must be a dictionary whose keys are
  parameters of the constructor (\<open>TypeError\<close> otherwise); absent keys take the
  constructor's defaults.
\<close>

definition from_json :: "string \<Rightarrow> pyexn + completion_report" where
  "from_json json_str =
     (case json_loads json_str of
        Inl e \<Rightarrow> Inl e
      | Inr data \<Rightarrow>
          (case data of
             JObj kwargs \<Rightarrow>
               if list_all (\<lambda>kv. fst kv \<in> set [''status'', ''summary'', ''findings'', ''artifacts'',
                                                ''recommendations'']) kwargs
               then Inr (CompletionReport
                      (get_default (map_of kwargs ''status'') (JStr ''success''))
                      (get_default (map_of kwargs ''summary'') (JStr []))
                      (get_default (map_of kwargs ''findings'') JNull)
                      (get_default (map_of kwargs ''artifacts'') JNull)
                      (get_default (map_of kwargs ''recommendations'') JNull))
               else Inl (PyExn TypeError ''__init__() got an unexpected keyword argument'')
           | _ \<Rightarrow> Inl (PyExn TypeError ''argument after ** must be a mapping'')))"

text \<open>The control tool \<open>finish(arguments, runtime)\<close>.\<close>

definition finish :: "(string \<rightharpoonup> json) \<Rightarrow> string" where
  "finish arguments =
     (let report = CompletionReport
            (get_default (arguments ''status'') (JStr ''success''))
            (get_default (arguments ''summary'') (JStr ''Task completed.''))
            (get_default (arguments ''findings'') (JArr []))
            (get_default (arguments ''artifacts'') (JArr []))
            (get_default (arguments ''recommendations'') (JArr []))
      in TASK_COMPLETE_SIGNAL @ '':'' @ to_json report)"

definition is_task_complete :: "string \<Rightarrow> bool" where
  "is_task_complete result = startswith result TASK_COMPLETE_SIGNAL"

definition extract_completion_summary :: "string \<Rightarrow> pyexn + json" where
  "extract_completion_summary result =
     (if is_task_complete result then
        (let data = drop (length TASK_COMPLETE_SIGNAL + 1) result in
         case from_json data of
           Inr report \<Rightarrow> Inr (summary report)
         | Inl (PyExn kind msg) \<Rightarrow>
             if kind = JSONDecodeError \<or> kind = TypeError then Inr (JStr data)
             else Inl (PyExn kind msg))
      else Inr (JStr result))"

definition extract_completion_report :: "string \<Rightarrow> pyexn + completion_report option" where
  "extract_completion_report result =
     (if is_task_complete result then
        (let data = drop (length TASK_COMPLETE_SIGNAL + 1) result in
         case from_json data of
           Inr report \<Rightarrow> Inr (Some report)
         | Inl (PyExn kind msg) \<Rightarrow>
             if kind = JSONDecodeError \<or> kind = TypeError
             then Inr (Some (CompletionReport (JStr ''success'') (JStr data) JNull JNull JNull))
             else Inl (PyExn kind msg))
      else Inr None)"

section \<open>The filesystem tools (tools/filesystem)\<close>

subsection \<open>Python operations the tools use\<close>

text \<open>Sequencing of steps that may raise: the first exception ends the computation.\<close>

definition and_then :: "pyexn + 'a \<Rightarrow> ('a \<Rightarrow> pyexn + 'b) \<Rightarrow> pyexn + 'b" where
  "and_then m f = (case m of Inl e \<Rightarrow> Inl e | Inr x \<Rightarrow> f x)"

text \<open>\<open>arguments[key]\<close>: a missing key raises \<open>KeyError\<close>, whose text is the key in quotes.\<close>

definition subscript :: "(string \<rightharpoonup> json) \<Rightarrow> string \<Rightarrow> pyexn + json" where
  "subscript arguments key =
     (case arguments key of
        None \<Rightarrow> Inl (PyExn KeyError ([CHR 0x27] @ key @ [CHR 0x27]))
      | Some v \<Rightarrow> Inr v)"

definition type_name :: "json \<Rightarrow> string" where
  "type_name v =
     (case v of
        JNull \<Rightarrow> ''NoneType'' | JBool b \<Rightarrow> ''bool'' | JInt i \<Rightarrow> ''int''
      | JStr s \<Rightarrow> ''str'' | JArr xs \<Rightarrow> ''list'' | JObj kvs \<Rightarrow> ''dict'')"

text \<open>The integer a number stands for in arithmetic and comparisons (\<open>bool\<close> is an \<open>int\<close>).\<close>

definition num_val :: "json \<Rightarrow> int option" where
  "num_val v = (case v of JInt i \<Rightarrow> Some i | JBool b \<Rightarrow> Some (if b then 1 else 0) | _ \<Rightarrow> None)"

text \<open>
  \<open>min(a, b)\<close> and \<open>max(a, b)\<close>: the first argument unless the second is strictly
  smaller (larger); values that are not numbers do not compare with a number.
\<close>

definition py_min :: "json \<Rightarrow> json \<Rightarrow> pyexn + json" where
  "py_min a b =
     (case (num_val a, num_val b) of
        (Some x, Some y) \<Rightarrow> Inr (if y < x then b else a)
      | _ \<Rightarrow> Inl (PyExn TypeError
          ([CHR 0x27] @ ''<'' @ [CHR 0x27] @ '' not supported between instances of '' @
           [CHR 0x27] @ type_name b @ [CHR 0x27] @ '' and '' @ [CHR 0x27] @ type_name a @ [CHR 0x27])))"

definition py_max :: "json \<Rightarrow> json \<Rightarrow> pyexn + json" where
  "py_max a b =
     (case (num_val a, num_val b) of
        (Some x, Some y) \<Rightarrow> Inr (if y > x then b else a)
      | _ \<Rightarrow> Inl (PyExn TypeError
          ([CHR 0x27] @ ''>'' @ [CHR 0x27] @ '' not supported between instances of '' @
           [CHR 0x27] @ type_name b @ [CHR 0x27] @ '' and '' @ [CHR 0x27] @ type_name a @ [CHR 0x27])))"

text \<open>\<open>a - 1\<close>\<close>

definition py_minus_one :: "json \<Rightarrow> pyexn + json" where
  "py_minus_one a =
     (case num_val a of
        Some x \<Rightarrow> Inr (JInt (x - 1))
      | None \<Rightarrow> Inl (PyExn TypeError
          (''unsupported operand type(s) for -: '' @ [CHR 0x27] @ type_name a @ [CHR 0x27] @
           '' and '' @ [CHR 0x27] @ ''int'' @ [CHR 0x27])))"

text \<open>
  \<open>repr(v)\<close> and \<open>str(v)\<close>, as an f-string prints a value; \<open>repr\<close> of a text (its quoting
  and escapes) is a parameter.
\<close>

fun py_repr :: "(string \<Rightarrow> string) \<Rightarrow> json \<Rightarrow> string" where
  "py_repr repr_str JNull = ''None''"
| "py_repr repr_str (JBool b) = (if b then ''True'' else ''False'')"
| "py_repr repr_str (JInt i) = show_int i"
| "py_repr repr_str (JStr s) = repr_str s"
| "py_repr repr_str (JArr xs) = ''['' @ join '', '' (map (py_repr repr_str) xs) @ '']''"
| "py_repr repr_str (JObj kvs) =
     ''{'' @ join '', '' (map (\<lambda>kv. repr_str (fst kv) @ '': '' @ py_repr repr_str (snd kv)) kvs) @ ''}''"

definition py_str :: "(string \<Rightarrow> string) \<Rightarrow> json \<Rightarrow> string" where
  "py_str repr_str v = (case v of JStr s \<Rightarrow> s | _ \<Rightarrow> py_repr repr_str v)"

text \<open>\<open>content.splitlines()\<close>, on the line boundaries that are characters of this model.\<close>

definition is_linebreak :: "char \<Rightarrow> bool" where
  "is_linebreak c =
     (c = CHR 0x0A \<or> c = CHR 0x0B \<or> c = CHR 0x0C \<or> c = CHR 0x0D \<or>
      c = CHR 0x1C \<or> c = CHR 0x1D \<or> c = CHR 0x1E \<or> c = CHR 0x85)"

fun splitlines_from :: "string \<Rightarrow> string \<Rightarrow> string list" where
  "splitlines_from line [] = (if line = [] then [] else [line])"
| "splitlines_from line [c] = (if is_linebreak c then [line] else [line @ [c]])"
| "splitlines_from line (c # d # cs) =
     (if c = CHR 0x0D \<and> d = CHR 0x0A then line # splitlines_from [] cs
      else if is_linebreak c then line # splitlines_from [] (d # cs)
      else splitlines_from (line @ [c]) (d # cs))"

definition splitlines :: "string \<Rightarrow> string list" where
  "splitlines s = splitlines_from [] s"

text \<open>
  \<open>content.count(sub)\<close>: the occurrences found scanning from the left, each search
  resuming after the previous occurrence; the empty text is found at every position.
\<close>

fun count_from :: "string \<Rightarrow> string \<Rightarrow> nat" where
  "count_from sub [] = 0"
| "count_from sub (c # cs) =
     (if startswith (c # cs) sub then Suc (count_from sub (drop (length sub - 1) cs))
      else count_from sub cs)"

definition py_count :: "string \<Rightarrow> string \<Rightarrow> nat" where
  "py_count s sub = (if sub = [] then Suc (length s) else count_from sub s)"

text \<open>\<open>content.replace(old, new, 1)\<close>: the leftmost occurrence is replaced.\<close>

fun py_replace_first :: "string \<Rightarrow> string \<Rightarrow> string \<Rightarrow> string" where
  "py_replace_first [] old new = (if old = [] then new else [])"
| "py_replace_first (c # cs) old new =
     (if startswith (c # cs) old then new @ drop (length old) (c # cs)
      else c # py_replace_first cs old new)"

text \<open>\<open>f"{i:4d}"\<close>\<close>

definition format_4d :: "int \<Rightarrow> string" where
  "format_4d i = replicate (4 - length (show_int i)) CHR '' '' @ show_int i"

subsection \<open>The operating system\<close>

text \<open>
  A resolved path is the list of its parts.  The file system is a state of any type;
  \<open>pathlib\<close> and the codecs are parameters: each may answer or raise.
  \<open>write_text\<close> gives the file system it leaves, also when it raises.
  \<open>rule_char\<close> is the text of the box-drawing character U+2500 that \<open>read_file\<close> prints 60
  times, which is not a character of this model.
\<close>

type_synonym path = "string list"

record 'fs os_env =
  resolve :: "string \<Rightarrow> pyexn + path"
  WORKSPACE_ROOT :: "path option"
  path_exists :: "'fs \<Rightarrow> path \<Rightarrow> pyexn + bool"
  path_is_file :: "'fs \<Rightarrow> path \<Rightarrow> pyexn + bool"
  read_text :: "'fs \<Rightarrow> path \<Rightarrow> string \<Rightarrow> pyexn + string"
  write_text :: "'fs \<Rightarrow> path \<Rightarrow> string \<Rightarrow> pyexn option \<times> 'fs"
  repr_str :: "string \<Rightarrow> string"
  rule_char :: string

text \<open>\<open>Path(filepath).resolve()\<close>: only a text makes a path.\<close>

definition make_path :: "'fs os_env \<Rightarrow> json \<Rightarrow> pyexn + path" where
  "make_path env filepath =
     (case filepath of
        JStr s \<Rightarrow> resolve env s
      | _ \<Rightarrow> Inl (PyExn TypeError
          (''expected str, bytes or os.PathLike object, not '' @ type_name filepath)))"

definition validate_path :: "'fs os_env \<Rightarrow> json \<Rightarrow> pyexn + path" where
  "validate_path env filepath =
     and_then (make_path env filepath) (\<lambda>path.
       case WORKSPACE_ROOT env of
         None \<Rightarrow> Inr path
       | Some root \<Rightarrow>
           if take (length root) path = root then Inr path
           else Inl (PyExn ValueError
             (''Path '' @ [CHR 0x27] @ py_str (repr_str env) filepath @ [CHR 0x27] @
              '' is outside workspace root'')))"

text \<open>The read with its fallback: \<open>latin-1\<close> when \<open>utf-8\<close> raises \<open>UnicodeDecodeError\<close>.\<close>

definition read_content :: "'fs os_env \<Rightarrow> 'fs \<Rightarrow> path \<Rightarrow> pyexn + string" where
  "read_content env fs path =
     (case read_text env fs path ''utf-8'' of
        Inr contents \<Rightarrow> Inr contents
      | Inl (PyExn kind msg) \<Rightarrow>
          if kind = UnicodeDecodeError then read_text env fs path ''latin-1''
          else Inl (PyExn kind msg))"

text \<open>
  The handlers that close each tool: \<open>except ValueError\<close> (with its subclasses), then
  \<open>except Exception\<close> with the tool's own label.
\<close>

definition is_ValueError :: "exn_kind \<Rightarrow> bool" where
  "is_ValueError kind = (kind = ValueError \<or> kind = UnicodeDecodeError \<or> kind = JSONDecodeError)"

definition handle_errors :: "string \<Rightarrow> pyexn + string \<Rightarrow> string" where
  "handle_errors label r =
     (case r of
        Inr text \<Rightarrow> text
      | Inl (PyExn kind msg) \<Rightarrow> if is_ValueError kind then ''Error: '' @ msg else label @ msg)"

subsection \<open>read_file\<close>

definition read_file_body :: "'fs os_env \<Rightarrow> 'fs \<Rightarrow> json \<Rightarrow> json \<Rightarrow> json \<Rightarrow> pyexn + string" where
  "read_file_body env fs filepath start_line end_line =
     and_then (validate_path env filepath) (\<lambda>path.
     and_then (path_exists env fs path) (\<lambda>found.
     if \<not> found then Inr (''Error: File not found: '' @ py_str (repr_str env) filepath)
     else
     and_then (path_is_file env fs path) (\<lambda>regular.
     if \<not> regular then Inr (''Error: Not a file: '' @ py_str (repr_str env) filepath)
     else
     and_then (read_content env fs path) (\<lambda>contents.
     let lines = splitlines contents;
         total_lines = int (length lines)
     in
     and_then (if truthy start_line then py_minus_one start_line else Inr (JInt 0)) (\<lambda>start_idx.
     let end_idx = (if truthy end_line then end_line else JInt total_lines) in
     and_then (py_min start_idx (JInt total_lines)) (\<lambda>start_min.
     and_then (py_max (JInt 0) start_min) (\<lambda>start_idx.
     and_then (py_min end_idx (JInt total_lines)) (\<lambda>end_min.
     and_then (py_max (JInt 0) end_min) (\<lambda>end_idx.
     let first_idx = nat (get_default (num_val start_idx) 0);
         last_idx = nat (get_default (num_val end_idx) 0)
     in
     if first_idx \<ge> last_idx then
       Inr (''Error: Invalid line range '' @ py_str (repr_str env) start_line @ ''-'' @
            py_str (repr_str env) end_line @ '' (file has '' @ show_int total_lines @ '' lines)'')
     else
       (let selected_lines = take (last_idx - first_idx) (drop first_idx lines);
            output_lines = map (\<lambda>(i, line). format_4d (int i) @ '' | '' @ line)
                             (zip [Suc first_idx ..< Suc first_idx + length selected_lines] selected_lines);
            header = ''File: '' @ py_str (repr_str env) filepath @ '' (lines '' @
                     show_nat (Suc first_idx) @ ''-'' @ py_str (repr_str env) end_idx @ '' of '' @
                     show_int total_lines @ '')''
        in Inr (header @ nl @ concat (replicate 60 (rule_char env)) @ nl @
                join nl output_lines)))))))))))"

definition read_file :: "'fs os_env \<Rightarrow> (string \<rightharpoonup> json) \<Rightarrow> 'fs \<Rightarrow> pyexn + string" where
  "read_file env arguments fs =
     and_then (subscript arguments ''path'') (\<lambda>filepath.
       let start_line = get_default (arguments ''start_line'') JNull;
           end_line = get_default (arguments ''end_line'') JNull
       in Inr (handle_errors ''Error reading file: ''
                 (read_file_body env fs filepath start_line end_line)))"

subsection \<open>replace_in_file\<close>

definition preview :: "string \<Rightarrow> string" where
  "preview s = (if length s > 100 then take 100 s @ ''...'' else s)"

text \<open>
  The body of the \<open>try\<close>: what it returns or raises, and the file system it leaves.
  \<open>count\<close> and \<open>replace\<close> raise \<open>TypeError\<close> on an argument that is not a text.
\<close>

definition replace_in_file_body ::
  "'fs os_env \<Rightarrow> 'fs \<Rightarrow> json \<Rightarrow> json \<Rightarrow> json \<Rightarrow> (pyexn + string) \<times> 'fs" where
  "replace_in_file_body env fs filepath old_string new_string =
     (case validate_path env filepath of
        Inl e \<Rightarrow> (Inl e, fs)
      | Inr path \<Rightarrow>
     (case path_exists env fs path of
        Inl e \<Rightarrow> (Inl e, fs)
      | Inr found \<Rightarrow>
     if \<not> found then (Inr (''Error: File not found: '' @ py_str (repr_str env) filepath), fs)
     else
     (case read_content env fs path of
        Inl e \<Rightarrow> (Inl e, fs)
      | Inr contents \<Rightarrow>
     (case old_string of
        JStr old \<Rightarrow>
          (let count = py_count contents old in
           if count = 0 then
             (Inr (''Error: String not found in '' @ py_str (repr_str env) filepath @
                   ''. Make sure old_string matches exactly (including whitespace).''), fs)
           else if count > 1 then
             (Inr (''Error: Found '' @ show_nat count @ '' matches in '' @
                   py_str (repr_str env) filepath @
                   ''. Include more context in old_string to make it unique.''), fs)
           else
             (case new_string of
                JStr new \<Rightarrow>
                  (let new_content = py_replace_first contents old new in
                   case write_text env fs path new_content of
                     (Some e, fs') \<Rightarrow> (Inl e, fs')
                   | (None, fs') \<Rightarrow>
                       (Inr (''Replaced in '' @ py_str (repr_str env) filepath @ '':'' @ nl @
                             ''- '' @ repr_str env (preview old) @ nl @
                             ''+ '' @ repr_str env (preview new)), fs'))
              | _ \<Rightarrow>
                  (Inl (PyExn TypeError
                     (''replace() argument 2 must be str, not '' @ type_name new_string)), fs)))
      | _ \<Rightarrow>
          (Inl (PyExn TypeError (''must be str, not '' @ type_name old_string)), fs)))))"

definition replace_in_file ::
  "'fs os_env \<Rightarrow> (string \<rightharpoonup> json) \<Rightarrow> 'fs \<Rightarrow> (pyexn + string) \<times> 'fs" where
  "replace_in_file env arguments fs =
     (case subscript arguments ''path'' of
        Inl e \<Rightarrow> (Inl e, fs)
      | Inr filepath \<Rightarrow>
     (case subscript arguments ''old_string'' of
        Inl e \<Rightarrow> (Inl e, fs)
      | Inr old_string \<Rightarrow>
     (case subscript arguments ''new_string'' of
        Inl e \<Rightarrow> (Inl e, fs)
      | Inr new_string \<Rightarrow>
          (let (r, fs') = replace_in_file_body env fs filepath old_string new_string
           in (Inr (handle_errors ''Error replacing in file: '' r), fs')))))"

text \<open>
  The occurrences of a text in a content: the positions at which the text stands,
  whether or not they overlap.
\<close>

definition occurrences :: "string \<Rightarrow> string \<Rightarrow> nat list" where
  "occurrences s sub = filter (\<lambda>i. startswith (drop i s) sub) [0 ..< Suc (length s)]"

section \<open>The code search tool (tools/codesearch)\<close>

definition MAX_RESULTS :: nat where
  "MAX_RESULTS = 20"

definition MAX_CONTEXT_LINES :: int where
  "MAX_CONTEXT_LINES = 3"

text \<open>
  What \<open>search_code\<close> calls: \<open>re.compile\<close> (on the query, or on \<open>re.escape\<close> of it, with
  or without \<open>IGNORECASE\<close>), and the helpers \<open>_get_searchable_files\<close>, \<open>_search_file\<close> and
  \<open>_format_match\<close>, which walk directories and run the pattern.  They are parameters that
  may answer or raise; compiled patterns and matches are values of any type.
\<close>

record ('fs, 'pat, 'mt) search_env =
  os :: "'fs os_env"
  re_compile :: "json \<Rightarrow> bool \<Rightarrow> pyexn + 'pat"
  re_compile_escaped :: "json \<Rightarrow> bool \<Rightarrow> pyexn + 'pat"
  get_searchable_files :: "'fs \<Rightarrow> path \<Rightarrow> json \<Rightarrow> pyexn + path list"
  search_file :: "'fs \<Rightarrow> path \<Rightarrow> 'pat \<Rightarrow> json \<Rightarrow> pyexn + 'mt list"
  format_match :: "'mt \<Rightarrow> pyexn + string"

text \<open>
  The loop over the files: it counts each file it opens and stops once \<open>MAX_RESULTS\<close>
  matches are found.
\<close>

fun search_files ::
  "('fs, 'pat, 'mt) search_env \<Rightarrow> 'fs \<Rightarrow> 'pat \<Rightarrow> json \<Rightarrow> path list \<Rightarrow> 'mt list \<Rightarrow> nat \<Rightarrow>
   pyexn + ('mt list \<times> nat)" where
  "search_files env fs pattern context_lines [] matches files_searched =
     Inr (matches, files_searched)"
| "search_files env fs pattern context_lines (filepath # files) matches files_searched =
     and_then (search_file env fs filepath pattern context_lines) (\<lambda>file_matches.
       if length (matches @ file_matches) \<ge> MAX_RESULTS
       then Inr (matches @ file_matches, Suc files_searched)
       else search_files env fs pattern context_lines files (matches @ file_matches)
              (Suc files_searched))"

fun format_matches :: "('mt \<Rightarrow> pyexn + string) \<Rightarrow> 'mt list \<Rightarrow> pyexn + string list" where
  "format_matches fmt [] = Inr []"
| "format_matches fmt (m # ms) =
     and_then (fmt m) (\<lambda>line. and_then (format_matches fmt ms) (\<lambda>lines. Inr (line # lines)))"

definition search_code_body ::
  "('fs, 'pat, 'mt) search_env \<Rightarrow> 'fs \<Rightarrow> json \<Rightarrow> json \<Rightarrow> json \<Rightarrow> json \<Rightarrow> json \<Rightarrow> json \<Rightarrow>
   pyexn + string" where
  "search_code_body env fs query search_path file_pattern use_regex case_sensitive context_lines =
     and_then (make_path (os env) search_path) (\<lambda>path.
     and_then (path_exists (os env) fs path) (\<lambda>found.
     if \<not> found then Inr (''Error: Path not found: '' @ py_str (repr_str (os env)) search_path)
     else
       (let ignore_case = \<not> truthy case_sensitive;
            compiled = (if truthy use_regex then re_compile env query ignore_case
                        else re_compile_escaped env query ignore_case)
        in case compiled of
             Inl (PyExn kind msg) \<Rightarrow>
               if truthy use_regex \<and> kind = ReError
               then Inr (''Error: Invalid regex pattern: '' @ msg)
               else Inl (PyExn kind msg)
           | Inr pattern \<Rightarrow>
               and_then (path_is_file (os env) fs path) (\<lambda>regular.
               and_then (if regular then Inr [path]
                         else get_searchable_files env fs path file_pattern) (\<lambda>files_to_search.
               and_then (search_files env fs pattern context_lines files_to_search [] 0)
                 (\<lambda>(matches, files_searched).
               if matches = [] then
                 Inr (''No matches found for '' @ [CHR 0x27] @ py_str (repr_str (os env)) query @
                      [CHR 0x27] @ '' in '' @ show_nat files_searched @ '' files'')
               else
                 and_then (format_matches (format_match env) (take MAX_RESULTS matches)) (\<lambda>shown.
                 Inr (join nl
                   ([''Found '' @ show_nat (length matches) @ '' matches in '' @
                       show_nat files_searched @ '' files:'' @ nl] @
                    shown @
                    (if length matches > MAX_RESULTS
                     then [nl @ ''... and '' @ show_nat (length matches - MAX_RESULTS) @
                           '' more matches (showing first '' @ show_nat MAX_RESULTS @ '')'']
                     else []))))))))))"

definition search_code ::
  "('fs, 'pat, 'mt) search_env \<Rightarrow> (string \<rightharpoonup> json) \<Rightarrow> 'fs \<Rightarrow> pyexn + string" where
  "search_code env arguments fs =
     and_then (subscript arguments ''query'') (\<lambda>query.
       let search_path = get_default (arguments ''path'') (JStr ''.'');
           file_pattern = get_default (arguments ''pattern'') JNull;
           use_regex = get_default (arguments ''regex'') (JBool False);
           case_sensitive = get_default (arguments ''case_sensitive'') (JBool False)
       in and_then (py_min (get_default (arguments ''context_lines'') (JInt MAX_CONTEXT_LINES))
                      (JInt 10)) (\<lambda>context_lines.
            Inr (case search_code_body env fs query search_path file_pattern use_regex
                        case_sensitive context_lines of
                   Inr text \<Rightarrow> text
                 | Inl (PyExn kind msg) \<Rightarrow> ''Error searching code: '' @ msg)))"

section \<open>Measures used in the proofs\<close>

definition delimited :: "string \<Rightarrow> bool" where
  "delimited rest = (case rest of [] \<Rightarrow> True | c # _ \<Rightarrow> c = CHR '','' \<or> c = CHR '']'' \<or> c = CHR ''}'')"

fun jsize :: "json \<Rightarrow> nat" where
  "jsize (JArr xs) = Suc (sum_list (map (\<lambda>x. Suc (jsize x)) xs))"
| "jsize (JObj kvs) = Suc (sum_list (map (\<lambda>kv. Suc (jsize (snd kv))) kvs))"
| "jsize v = 1"


section \<open>Concrete inputs, for the examples\<close>

definition idle_wait :: "string list option \<Rightarrow> worker_pool \<Rightarrow> worker_pool" where
  "idle_wait ids p = p"

definition terse_llm :: "string \<Rightarrow> (string \<times> string) list \<Rightarrow> string list \<Rightarrow> pyexn + llm_response" where
  "terse_llm system_prompt messages tools =
     Inr \<lparr>content = [], usage = Some [(''total_tokens'', 10)]\<rparr>"

definition demo_env :: crew_env where
  "demo_env = \<lparr>wait_for = idle_wait, generate = terse_llm\<rparr>"

definition done_worker :: task_record where
  "done_worker =
     \<lparr>w_id = ''agent-0'', w_task = ''scan ports'', w_priority = 1, w_depends_on = [],
      w_status = Completed, w_result = Some ''22/tcp open'', w_error = None,
      w_tools_used = [''nmap'']\<rparr>"

definition demo_state :: crew_state where
  "demo_state =
     \<lparr>pool = \<lparr>workers = [done_worker], next_id = 1, finish_tokens = 0\<rparr>, calls = []\<rparr>"

definition empty_state :: crew_state where
  "empty_state = \<lparr>pool = \<lparr>workers = [], next_id = 0, finish_tokens = 0\<rparr>, calls = []\<rparr>"

definition partial_arguments :: "string \<rightharpoonup> json" where
  "partial_arguments = [''status'' \<mapsto> JStr ''partial'', ''findings'' \<mapsto> JArr [JStr ''f1'']]"


text \<open>
  A small operating system: a file system maps a path to the text of the file there,
  every name resolves to the one-part path of that name, and no workspace root is set.
\<close>

definition plain_os :: "(path \<rightharpoonup> string) os_env" where
  "plain_os =
     \<lparr>resolve = (\<lambda>name. Inr [name]),
      WORKSPACE_ROOT = None,
      path_exists = (\<lambda>fs p. Inr (fs p \<noteq> None)),
      path_is_file = (\<lambda>fs p. Inr (fs p \<noteq> None)),
      read_text = (\<lambda>fs p encoding.
         case fs p of None \<Rightarrow> Inl (PyExn OSError ''No such file or directory'') | Some s \<Rightarrow> Inr s),
      write_text = (\<lambda>fs p s. (None, fs(p \<mapsto> s))),
      repr_str = (\<lambda>s. [CHR 0x27] @ s @ [CHR 0x27]),
      rule_char = ''-''\<rparr>"

definition plain_search :: "(path \<rightharpoonup> string, string, string) search_env" where
  "plain_search =
     \<lparr>os = plain_os,
      re_compile = (\<lambda>query ignore_case.
         case query of JStr s \<Rightarrow> Inr s | _ \<Rightarrow> Inl (PyExn TypeError ''first argument must be string'')),
      re_compile_escaped = (\<lambda>query ignore_case.
         case query of JStr s \<Rightarrow> Inr s | _ \<Rightarrow> Inl (PyExn TypeError ''expected string'')),
      get_searchable_files = (\<lambda>fs p file_pattern. Inr []),
      search_file = (\<lambda>fs p pattern context_lines. Inr []),
      format_match = (\<lambda>m. Inr m)\<rparr>"

definition one_file :: "path \<rightharpoonup> string" where
  "one_file = [[''notes.txt''] \<mapsto> ''aaa'']"

definition no_arguments :: "string \<rightharpoonup> json" where
  "no_arguments = Map.empty"

definition read_arguments :: "string \<rightharpoonup> json" where
  "read_arguments = [''path'' \<mapsto> JStr ''notes.txt'']"

definition search_arguments :: "string \<rightharpoonup> json" where
  "search_arguments = [''query'' \<mapsto> JStr ''aa'', ''path'' \<mapsto> JStr ''notes.txt'']"

definition bad_search_arguments :: "string \<rightharpoonup> json" where
  "bad_search_arguments = [''query'' \<mapsto> JStr ''aa'', ''context_lines'' \<mapsto> JStr ''2'']"

definition replace_arguments :: "string \<rightharpoonup> json" where
  "replace_arguments =
     [''path'' \<mapsto> JStr ''notes.txt'', ''old_string'' \<mapsto> JStr ''aa'', ''new_string'' \<mapsto> JStr ''b'']"

section \<open>Verified properties\<close>

subsection \<open>\<open>json.loads\<close> reads back what \<open>json.dumps\<close> wrote\<close>

lemma hex_val_hex_digit: "n < 16 \<Longrightarrow> hex_val (hex_digit n) = Some n"
proof -
  assume "n < 16"
  then have "n \<in> {0, 1, 2, 3, 4, 5, 6, 7, 8, 9, 10, 11, 12, 13, 14, 15}" by simp arith
  then show ?thesis
    by (auto simp: hex_digit_def hex_val_def)
qed

lemma decode_uXXXX_escape:
  "decode_uXXXX CHR ''0'' CHR ''0'' (hex_digit (of_char c div 16)) (hex_digit (of_char c mod 16)) = Some c"
proof -
  have "(of_char c :: nat) mod 256 < 256" by simp
  then have lt: "(of_char c :: nat) < 256" by simp
  then have hi: "(of_char c :: nat) div 16 < 16" by arith
  have lo: "(of_char c :: nat) mod 16 < 16" by simp
  have z: "hex_val CHR ''0'' = Some 0" by (simp add: hex_val_def)
  show ?thesis
    using lt by (simp add: decode_uXXXX_def z hex_val_hex_digit [OF hi] hex_val_hex_digit [OF lo])
qed

lemma scanstring_escape_char:
  "scanstring (escape_char c @ r) = map_option (\<lambda>(t, r'). (c # t, r')) (scanstring r)"
  by (simp add: escape_char_def decode_uXXXX_escape unescape_def not_less)

lemma scanstring_encoded:
  "scanstring (concat (map escape_char s) @ dquote # rest) = Some (s, rest)"
  by (induction s) (simp_all add: scanstring_escape_char)


lemma digit_char_props:
  assumes "d < 10"
  shows "is_digit (digit_char d)" and "(of_char (digit_char d) :: nat) - 48 = d"
    and "digit_char d = CHR ''0'' \<longleftrightarrow> d = 0"
    and "digit_char d \<noteq> CHR ''-''" and "digit_char d \<noteq> dquote" and "digit_char d \<noteq> CHR ''{''"
    and "digit_char d \<noteq> CHR ''[''" and "digit_char d \<noteq> CHR ''n''" and "digit_char d \<noteq> CHR ''t''"
    and "digit_char d \<noteq> CHR ''f''"
proof -
  from assms have "d \<in> {0, 1, 2, 3, 4, 5, 6, 7, 8, 9}" by simp arith
  then show "is_digit (digit_char d)" and "(of_char (digit_char d) :: nat) - 48 = d"
    and "digit_char d = CHR ''0'' \<longleftrightarrow> d = 0"
    and "digit_char d \<noteq> CHR ''-''" and "digit_char d \<noteq> dquote" and "digit_char d \<noteq> CHR ''{''"
    and "digit_char d \<noteq> CHR ''[''" and "digit_char d \<noteq> CHR ''n''" and "digit_char d \<noteq> CHR ''t''"
    and "digit_char d \<noteq> CHR ''f''"
    by (auto simp: digit_char_def is_digit_def)
qed

lemma show_nat_nonempty: "show_nat n \<noteq> []"
  by (induction n rule: show_nat.induct) (subst show_nat.simps, simp)

lemma show_nat_digits: "list_all is_digit (show_nat n)"
proof (induction n rule: show_nat.induct)
  case (1 n)
  show ?case
  proof (cases "n < 10")
    case True
    then show ?thesis by (subst show_nat.simps) (simp add: digit_char_props)
  next
    case False
    then have "n mod 10 < 10" by simp
    with False 1 show ?thesis by (subst show_nat.simps) (simp add: digit_char_props)
  qed
qed

lemma nat_of_digits_snoc: "nat_of_digits (ds @ [c]) = 10 * nat_of_digits ds + (of_char c - 48)"
  by (simp add: nat_of_digits_def)

lemma nat_of_digits_show_nat: "nat_of_digits (show_nat n) = n"
proof (induction n rule: show_nat.induct)
  case (1 n)
  show ?case
  proof (cases "n < 10")
    case True
    then show ?thesis
      by (subst show_nat.simps) (simp add: nat_of_digits_def digit_char_props)
  next
    case False
    then have m: "n mod 10 < 10" by simp
    from False 1 have "nat_of_digits (show_nat (n div 10)) = n div 10" by simp
    with False m show ?thesis
      by (subst show_nat.simps) (simp add: nat_of_digits_snoc digit_char_props)
  qed
qed

lemma hd_show_nat_zero: "hd (show_nat n) = CHR ''0'' \<longleftrightarrow> n = 0"
proof (induction n rule: show_nat.induct)
  case (1 n)
  show ?case
  proof (cases "n < 10")
    case True
    then show ?thesis by (subst show_nat.simps) (simp add: digit_char_props)
  next
    case False
    then have "n div 10 \<noteq> 0" by simp
    with False 1 show ?thesis
      by (subst show_nat.simps) (simp add: show_nat_nonempty)
  qed
qed

lemma show_nat_zero: "show_nat 0 = ''0''"
  by (simp add: show_nat.simps digit_char_def)

lemma delimited_not_digit: "delimited rest \<Longrightarrow> rest = [] \<or> \<not> is_digit (hd rest)"
  by (auto simp: delimited_def is_digit_def split: list.splits)

lemma delimited_not_float: "delimited rest \<Longrightarrow> \<not> is_float_tail rest"
  by (auto simp: delimited_def is_float_tail_def split: list.splits)

lemma takeWhile_show_nat:
  assumes "delimited rest"
  shows "takeWhile is_digit (show_nat n @ rest) = show_nat n"
proof -
  have "\<forall>c \<in> set (show_nat n). is_digit c"
    using show_nat_digits [of n] by (simp add: list_all_iff)
  moreover have "takeWhile is_digit rest = []"
    using delimited_not_digit [OF assms] by (cases rest) auto
  ultimately show ?thesis by (simp add: takeWhile_append2)
qed

lemma scan_number_nat:
  assumes "delimited rest"
  shows "scan_number (show_nat n @ rest) = Some (JInt (int n), rest)"
proof -
  obtain d ds where sn: "show_nat n = d # ds"
    using show_nat_nonempty [of n] by (cases "show_nat n") auto
  have dig: "is_digit d"
    using show_nat_digits [of n] sn by simp
  then have nm: "d \<noteq> CHR ''-''" by (auto simp: is_digit_def)
  have neg: "\<not> startswith (show_nat n @ rest) ''-''"
    using nm sn by (simp add: startswith_def)
  show ?thesis
  proof (cases "n = 0")
    case True
    with assms show ?thesis
      by (simp add: scan_number_def show_nat_zero startswith_def is_digit_def
          delimited_not_float nat_of_digits_def)
  next
    case False
    then have "d \<noteq> CHR ''0''"
      using hd_show_nat_zero [of n] sn by simp
    moreover have "takeWhile is_digit (d # ds @ rest) = d # ds"
      using takeWhile_show_nat [OF assms, of n] sn by simp
    moreover have "nat_of_digits (d # ds) = n"
      using nat_of_digits_show_nat [of n] sn by simp
    ultimately show ?thesis
      using neg dig sn delimited_not_float [OF assms]
      by (simp add: scan_number_def Let_def)
  qed
qed

lemma scan_number_show_int:
  assumes "delimited rest"
  shows "scan_number (show_int i @ rest) = Some (JInt i, rest)"
proof (cases "i < 0")
  case False
  then show ?thesis
    using scan_number_nat [OF assms, of "nat i"] by (simp add: show_int_def)
next
  case True
  let ?m = "nat (- i)"
  from True have m0: "?m \<noteq> 0" by simp
  obtain d ds where sn: "show_nat ?m = d # ds"
    using show_nat_nonempty [of ?m] by (cases "show_nat ?m") auto
  have dig: "is_digit d"
    using show_nat_digits [of ?m] sn by simp
  have "d \<noteq> CHR ''0''"
    using hd_show_nat_zero [of ?m] sn m0 by simp
  moreover have "takeWhile is_digit (d # ds @ rest) = d # ds"
    using takeWhile_show_nat [OF assms, of ?m] sn by simp
  moreover have "nat_of_digits (d # ds) = ?m"
    using nat_of_digits_show_nat [of ?m] sn by simp
  ultimately show ?thesis
    using True dig sn delimited_not_float [OF assms]
    by (simp add: scan_number_def Let_def show_int_def startswith_def)
qed

lemma show_int_first:
  "\<exists>c cs. show_int i = c # cs \<and> (c = CHR ''-'' \<or> is_digit c)"
proof -
  obtain d ds where sn: "show_nat (nat (if i < 0 then - i else i)) = d # ds"
    using show_nat_nonempty by (meson list.exhaust)
  have "is_digit d"
    using show_nat_digits [of "nat (if i < 0 then - i else i)"] sn by simp
  with sn show ?thesis by (auto simp: show_int_def)
qed



lemma skip_ws_Cons: "\<not> is_ws c \<Longrightarrow> skip_ws (c # cs) = c # cs"
  by (simp add: skip_ws_def)

lemma skip_ws_first: "s = c # cs \<Longrightarrow> \<not> is_ws c \<Longrightarrow> skip_ws s = s"
  by (simp add: skip_ws_def)

lemma startswith_first: "s = c # cs \<Longrightarrow> c \<noteq> d \<Longrightarrow> \<not> startswith s [d]"
  by (simp add: startswith_def)

lemma skip_ws_space: "skip_ws (CHR '' '' # cs) = skip_ws cs"
  by (simp add: skip_ws_def is_ws_def)

lemma json_dumps_first: "\<exists>c cs. json_dumps v = c # cs \<and> \<not> is_ws c \<and> c \<noteq> CHR '']''"
proof (cases v)
  case (JInt i)
  then show ?thesis
    using show_int_first [of i] by (auto simp: is_ws_def is_digit_def)
qed (auto simp: is_ws_def encode_string_def)

lemma skip_ws_json_dumps: "skip_ws (json_dumps v @ r) = json_dumps v @ r"
  using json_dumps_first [of v] by (auto simp: skip_ws_Cons)

lemma dict_set_fresh: "k \<notin> fst ` set d \<Longrightarrow> dict_set k v d = d @ [(k, v)]"
  by (induction d) auto

lemma dict_of_pairs_foldl:
  "distinct (map fst (acc @ kvs)) \<Longrightarrow>
   foldl (\<lambda>d kv. dict_set (fst kv) (snd kv) d) acc kvs = acc @ kvs"
proof (induction kvs arbitrary: acc)
  case Nil
  then show ?case by simp
next
  case (Cons kv kvs)
  then have "fst kv \<notin> fst ` set acc" by auto
  then have "dict_set (fst kv) (snd kv) acc = acc @ [kv]"
    by (simp add: dict_set_fresh)
  with Cons show ?case by simp
qed

lemma dict_of_pairs_distinct: "distinct (map fst kvs) \<Longrightarrow> dict_of_pairs kvs = kvs"
  using dict_of_pairs_foldl [of "[]" kvs] by (simp add: dict_of_pairs_def)

lemma delimited_simps:
  "delimited []" "delimited (CHR '','' # r)" "delimited (CHR '']'' # r)" "delimited (CHR ''}'' # r)"
  by (simp_all add: delimited_def)

lemma scan_array_roundtrip:
  assumes IH: "\<And>x n rest. x \<in> set xs \<Longrightarrow> delimited rest \<Longrightarrow> jsize x \<le> n \<Longrightarrow>
                 scan_once n (json_dumps x @ rest) = Some (x, rest)"
    and "xs \<noteq> []" and "sum_list (map (\<lambda>x. Suc (jsize x)) xs) \<le> n"
  shows "scan_array n (join '', '' (map json_dumps xs) @ CHR '']'' # rest) = Some (xs, rest)"
  using assms
proof (induction xs arbitrary: n)
  case Nil
  then show ?case by simp
next
  case (Cons x xs)
  from Cons.prems(3) obtain m where n: "n = Suc m" and mx: "jsize x \<le> m"
    and mxs: "sum_list (map (\<lambda>x. Suc (jsize x)) xs) \<le> m"
    by (cases n) auto
  show ?case
  proof (cases xs)
    case Nil
    have "scan_once m (json_dumps x @ CHR '']'' # rest) = Some (x, CHR '']'' # rest)"
      using Cons.prems(1) [of x "CHR '']'' # rest" m] mx by (simp add: delimited_simps)
    then show ?thesis
      using Nil n by (simp add: skip_ws_Cons is_ws_def)
  next
    case (Cons y ys)
    let ?tail = "join '', '' (map json_dumps xs) @ CHR '']'' # rest"
    have x: "scan_once m (json_dumps x @ CHR '','' # CHR '' '' # ?tail) =
          Some (x, CHR '','' # CHR '' '' # ?tail)"
      using Cons.prems(1) [of x "CHR '','' # CHR '' '' # ?tail" m] mx
      by (simp add: delimited_simps)
    have "scan_array m ?tail = Some (xs, rest)"
      using Cons.IH [of m] Cons.prems(1) mxs Cons by simp
    moreover have "skip_ws (CHR '' '' # ?tail) = ?tail"
      using Cons skip_ws_json_dumps [of y] by (cases ys) (simp_all add: skip_ws_space)
    ultimately show ?thesis
      using Cons n x by (simp add: skip_ws_Cons is_ws_def)
  qed
qed


lemma scanstring_encode_string:
  "scanstring (tl (encode_string k) @ r) = Some (k, r)"
  by (simp add: encode_string_def scanstring_encoded)

lemma scan_object_member:
  assumes v: "scan_once m (json_dumps v @ r) = Some (v, r)"
  shows "scan_object (Suc m) (encode_string k @ '': '' @ json_dumps v @ r) =
     (case skip_ws r of
        [] \<Rightarrow> None
      | d # r3 \<Rightarrow>
          if d = CHR ''}'' then Some ([(k, v)], r3)
          else if d = CHR '','' then
            map_option (\<lambda>(pairs, r4). ((k, v) # pairs, r4)) (scan_object m (skip_ws r3))
          else None)"
proof -
  have "encode_string k @ '': '' @ json_dumps v @ r =
        dquote # (concat (map escape_char k) @ dquote # (CHR '':'' # CHR '' '' # json_dumps v @ r))"
    by (simp add: encode_string_def)
  then show ?thesis
    using v
    by (simp add: scanstring_encoded skip_ws_Cons is_ws_def skip_ws_space skip_ws_json_dumps)
qed

lemma scan_object_roundtrip:
  assumes IH: "\<And>kv n rest. kv \<in> set kvs \<Longrightarrow> delimited rest \<Longrightarrow> jsize (snd kv) \<le> n \<Longrightarrow>
                 scan_once n (json_dumps (snd kv) @ rest) = Some (snd kv, rest)"
    and "kvs \<noteq> []" and "sum_list (map (\<lambda>kv. Suc (jsize (snd kv))) kvs) \<le> n"
  shows "scan_object n
           (join '', '' (map (\<lambda>kv. encode_string (fst kv) @ '': '' @ json_dumps (snd kv)) kvs) @
            CHR ''}'' # rest) = Some (kvs, rest)"
  using assms
proof (induction kvs arbitrary: n)
  case Nil
  then show ?case by simp
next
  case (Cons kv kvs)
  let ?member = "\<lambda>kv. encode_string (fst kv) @ '': '' @ json_dumps (snd kv)"
  from Cons.prems(3) obtain m where n: "n = Suc m" and mx: "jsize (snd kv) \<le> m"
    and mxs: "sum_list (map (\<lambda>kv. Suc (jsize (snd kv))) kvs) \<le> m"
    by (cases n) auto
  show ?case
  proof (cases kvs)
    case Nil
    have "scan_once m (json_dumps (snd kv) @ CHR ''}'' # rest) = Some (snd kv, CHR ''}'' # rest)"
      using Cons.prems(1) [of kv "CHR ''}'' # rest" m] mx by (simp add: delimited_simps)
    from scan_object_member [OF this, of "fst kv"] show ?thesis
      using Nil n by (simp add: skip_ws_Cons is_ws_def)
  next
    case (Cons kv' kvs')
    let ?tail = "join '', '' (map ?member kvs) @ CHR ''}'' # rest"
    have "scan_once m (json_dumps (snd kv) @ CHR '','' # CHR '' '' # ?tail) =
          Some (snd kv, CHR '','' # CHR '' '' # ?tail)"
      using Cons.prems(1) [of kv "CHR '','' # CHR '' '' # ?tail" m] mx
      by (simp add: delimited_simps)
    note x = scan_object_member [OF this, of "fst kv"]
    have t: "scan_object m ?tail = Some (kvs, rest)"
      using Cons.IH [of m] Cons.prems(1) mxs Cons by simp
    have "\<exists>cs. ?tail = dquote # cs"
      using Cons by (cases kvs') (simp_all add: encode_string_def)
    then have "skip_ws (CHR '' '' # ?tail) = ?tail"
      by (auto simp add: skip_ws_space skip_ws_Cons is_ws_def)
    with t x show ?thesis
      using Cons n by (simp add: skip_ws_Cons is_ws_def)
  qed
qed

lemma scan_once_roundtrip:
  "wf_json v \<Longrightarrow> delimited rest \<Longrightarrow> jsize v \<le> n \<Longrightarrow>
   scan_once n (json_dumps v @ rest) = Some (v, rest)"
proof (induction v arbitrary: n rest)
  case JNull
  then show ?case by (cases n) (simp_all add: startswith_def)
next
  case (JBool b)
  then show ?case by (cases n) (simp_all add: startswith_def)
next
  case (JInt i)
  obtain c cs where f: "show_int i = c # cs" "c = CHR ''-'' \<or> is_digit c"
    using show_int_first [of i] by blast
  from f(2) have "c \<noteq> dquote" "c \<noteq> CHR ''{''" "c \<noteq> CHR ''[''" "c \<noteq> CHR ''n''"
    "c \<noteq> CHR ''t''" "c \<noteq> CHR ''f''"
    by (auto simp: is_digit_def)
  moreover have "scan_number (c # cs @ rest) = Some (JInt i, rest)"
    using scan_number_show_int [OF JInt(2), of i] f(1) by simp
  ultimately show ?case
    using JInt f(1) by (cases n) (simp_all add: startswith_def)
next
  case (JStr s)
  then show ?case
    by (cases n) (simp_all add: encode_string_def scanstring_encoded)
next
  case (JArr xs)
  from JArr.prems(3) obtain m where n: "n = Suc m"
    and m: "sum_list (map (\<lambda>x. Suc (jsize x)) xs) \<le> m"
    by (cases n) auto
  show ?case
  proof (cases "xs = []")
    case True
    then show ?thesis
      using n by (simp add: skip_ws_Cons is_ws_def startswith_def)
  next
    case False
    have IH: "\<And>x n rest. x \<in> set xs \<Longrightarrow> delimited rest \<Longrightarrow> jsize x \<le> n \<Longrightarrow>
                 scan_once n (json_dumps x @ rest) = Some (x, rest)"
      using JArr.IH JArr.prems(1) by (simp add: list_all_iff)
    let ?body = "join '', '' (map json_dumps xs) @ CHR '']'' # rest"
    obtain y ys where xs: "xs = y # ys" using False by (cases xs) auto
    obtain c cs where "json_dumps y = c # cs" "\<not> is_ws c" "c \<noteq> CHR '']''"
      using json_dumps_first [of y] by blast
    then obtain cs' where b: "?body = c # cs'" "\<not> is_ws c" "c \<noteq> CHR '']''"
      using xs by (cases ys) simp_all
    have "skip_ws ?body = ?body" "\<not> startswith ?body '']''"
      using skip_ws_first [OF b(1,2)] startswith_first [OF b(1,3)] by blast+
    with scan_array_roundtrip [OF IH False m, of rest] show ?thesis
      using n by simp
  qed
next
  case (JObj kvs)
  from JObj.prems(3) obtain m where n: "n = Suc m"
    and m: "sum_list (map (\<lambda>kv. Suc (jsize (snd kv))) kvs) \<le> m"
    by (cases n) auto
  from JObj.prems(1) have d: "dict_of_pairs kvs = kvs"
    by (simp add: dict_of_pairs_distinct)
  show ?case
  proof (cases "kvs = []")
    case True
    then show ?thesis
      using n by (simp add: skip_ws_Cons is_ws_def startswith_def)
  next
    case False
    have IH: "\<And>kv n rest. kv \<in> set kvs \<Longrightarrow> delimited rest \<Longrightarrow> jsize (snd kv) \<le> n \<Longrightarrow>
                 scan_once n (json_dumps (snd kv) @ rest) = Some (snd kv, rest)"
    proof -
      fix kv n rest
      assume kv: "kv \<in> set kvs" and r: "delimited rest" and s: "jsize (snd kv) \<le> n"
      have "snd kv \<in> Basic_BNFs.snds kv" by (cases kv) simp
      moreover from JObj.prems(1) kv have "wf_json (snd kv)" by (simp add: list_all_iff)
      ultimately show "scan_once n (json_dumps (snd kv) @ rest) = Some (snd kv, rest)"
        using JObj.IH [OF kv] r s by blast
    qed
    let ?body = "join '', '' (map (\<lambda>kv. encode_string (fst kv) @ '': '' @ json_dumps (snd kv)) kvs) @
                 CHR ''}'' # rest"
    obtain y ys where kvs: "kvs = y # ys" using False by (cases kvs) auto
    obtain cs where b: "?body = dquote # cs"
      using kvs by (cases ys) (simp_all add: encode_string_def)
    have "skip_ws ?body = ?body" "\<not> startswith ?body ''}''"
      using skip_ws_first [OF b] startswith_first [OF b, of "CHR ''}''"]
      by (simp_all add: is_ws_def)
    with scan_object_roundtrip [OF IH False m, of rest] d show ?thesis
      using n by simp
  qed
qed

lemma length_join_bound:
  assumes "\<And>x. x \<in> set xs \<Longrightarrow> f x \<le> length (g x)"
  shows "sum_list (map (\<lambda>x. Suc (f x)) xs) \<le> Suc (length (join '', '' (map g xs)))"
  using assms
proof (induction xs rule: induct_list012)
  case (3 x y zs)
  then have "sum_list (map (\<lambda>x. Suc (f x)) (y # zs)) \<le> Suc (length (join '', '' (map g (y # zs))))"
    by simp
  moreover have "f x \<le> length (g x)" using 3 by simp
  ultimately show ?case by simp
qed simp_all

lemma jsize_le_length: "jsize v \<le> length (json_dumps v)"
proof (induction v)
  case (JInt i)
  then show ?case using show_int_first [of i] by auto
next
  case (JArr xs)
  then show ?case
    using length_join_bound [of xs jsize json_dumps] by simp
next
  case (JObj kvs)
  have "\<And>kv. kv \<in> set kvs \<Longrightarrow>
      jsize (snd kv) \<le> length (encode_string (fst kv) @ '': '' @ json_dumps (snd kv))"
  proof -
    fix kv assume kv: "kv \<in> set kvs"
    have "snd kv \<in> Basic_BNFs.snds kv" by (cases kv) simp
    with JObj kv have "jsize (snd kv) \<le> length (json_dumps (snd kv))" by blast
    then show "jsize (snd kv) \<le> length (encode_string (fst kv) @ '': '' @ json_dumps (snd kv))"
      by simp
  qed
  from length_join_bound [of kvs "\<lambda>kv. jsize (snd kv)"
      "\<lambda>kv. encode_string (fst kv) @ '': '' @ json_dumps (snd kv)", OF this]
  show ?case by simp
qed (simp_all add: encode_string_def)

lemma json_loads_dumps: "wf_json v \<Longrightarrow> json_loads (json_dumps v) = Inr v"
proof -
  assume wf: "wf_json v"
  have "jsize v \<le> Suc (length (json_dumps v))"
    using jsize_le_length [of v] by simp
  from scan_once_roundtrip [OF wf _ this, of "[]"]
  have "scan_once (Suc (length (json_dumps v))) (json_dumps v) = Some (v, [])"
    by (simp add: delimited_simps)
  moreover have "skip_ws (json_dumps v) = json_dumps v"
    using skip_ws_json_dumps [of v "[]"] by simp
  ultimately show ?thesis
    by (simp add: json_loads_def skip_ws_def)
qed

subsection \<open>Helper facts\<close>

lemma gather_results_filter:
  "gather_results ws =
     map (\<lambda>w. ''## '' @ w_id w @ '': '' @ w_task w @ nl @
               (if truthy_opt (w_result w) then get_default (w_result w) []
                else ''Error: '' @ get_default (w_error w) []))
         (filter (\<lambda>w. truthy_opt (w_result w) \<or> truthy_opt (w_error w)) ws)"
  by (induction ws) auto

lemma gather_results_empty_iff:
  "gather_results ws = [] \<longleftrightarrow> (\<forall>w \<in> set ws. \<not> truthy_opt (w_result w) \<and> \<not> truthy_opt (w_error w))"
  by (induction ws) auto

subsection \<open>finish\<close>

text \<open>
  C1, as amended.  When a worker has produced a result or an error and the response of
  the language model carries a non-empty usage mapping, \<open>finish\<close> stores the reported
  \<open>total_tokens\<close> in \<open>finish_tokens\<close> (0 when the mapping has no such key), replacing what
  was there, so that the accumulator grows by exactly that count when it held 0; the
  summary returned is the content of the response.
\<close>

theorem finish_stores_total_tokens:
  assumes "\<exists>w \<in> set (get_workers (wait_for env None (pool st))).
             truthy_opt (w_result w) \<or> truthy_opt (w_error w)"
    and "generate env synthesis_system_prompt
           [(''user'', synthesis_prompt (get_default (arg_context arguments) [])
              (gather_results (get_workers (wait_for env None (pool st)))))] [] = Inr response"
    and "usage response = Some u" and "u \<noteq> []"
  shows "finish_tokens (pool (snd (finish_fn env arguments st))) =
           get_default (map_of u ''total_tokens'') 0 \<and>
         fst (finish_fn env arguments st) = Inr (content response) \<and>
         (finish_tokens (wait_for env None (pool st)) = 0 \<longrightarrow>
            finish_tokens (pool (snd (finish_fn env arguments st))) =
              finish_tokens (wait_for env None (pool st)) + get_default (map_of u ''total_tokens'') 0)"
proof -
  let ?ws = "get_workers (wait_for env None (pool st))"
  from assms(1) have blocks: "gather_results ?ws \<noteq> []"
    by (simp add: gather_results_empty_iff)
  then have ws: "?ws \<noteq> []"
    by auto
  show ?thesis
    using blocks ws assms(2-4) by (simp add: finish_fn_def Let_def)
qed

theorem finish_stores_total_tokens_witness:
  "finish_tokens (pool (snd (finish_fn demo_env \<lparr>arg_context = Some ''ssh audit''\<rparr> demo_state))) = 10 \<and>
   fst (finish_fn demo_env \<lparr>arg_context = Some ''ssh audit''\<rparr> demo_state) = Inr []"
proof -
  have w: "\<exists>w \<in> set (get_workers (wait_for demo_env None (pool demo_state))).
             truthy_opt (w_result w) \<or> truthy_opt (w_error w)"
    by (simp add: demo_env_def demo_state_def idle_wait_def get_workers_def done_worker_def
        truthy_opt_def get_default_def)
  have g: "generate demo_env synthesis_system_prompt
           [(''user'', synthesis_prompt (get_default (arg_context \<lparr>arg_context = Some ''ssh audit''\<rparr>) [])
              (gather_results (get_workers (wait_for demo_env None (pool demo_state)))))] []
         = Inr \<lparr>content = [], usage = Some [(''total_tokens'', 10)]\<rparr>"
    by (simp add: demo_env_def terse_llm_def)
  show ?thesis
    using finish_stores_total_tokens [OF w g, of "[(''total_tokens'', 10)]"]
    by (simp add: get_default_def)
qed

text \<open>
  C1 as stated fails: a second \<open>finish\<close> on the same pool finds 10 in the accumulator,
  is told 10 again, and leaves 10 where an increment would leave 20; and the summary is
  the empty content the model answered.
\<close>

theorem finish_increment_counterexample:
  "finish_tokens (pool (snd (finish_fn demo_env \<lparr>arg_context = None\<rparr> demo_state))) = 10 \<and>
   finish_tokens (pool (snd (finish_fn demo_env \<lparr>arg_context = None\<rparr>
      (snd (finish_fn demo_env \<lparr>arg_context = None\<rparr> demo_state))))) = 10 \<and>
   fst (finish_fn demo_env \<lparr>arg_context = None\<rparr>
      (snd (finish_fn demo_env \<lparr>arg_context = None\<rparr> demo_state))) = Inr []"
  by (simp add: finish_fn_def Let_def demo_env_def demo_state_def idle_wait_def terse_llm_def
      get_workers_def done_worker_def truthy_opt_def get_default_def)

text \<open>
  C2.  When, after the wait, no worker record has a non-empty result or a non-empty
  error (in particular when no worker was spawned), \<open>finish\<close> returns the context given
  by the caller when it is non-empty and a fixed sentence otherwise, and the only call it
  has made is the wait: the language model is not called and the pool is what the wait
  left.
\<close>

theorem finish_without_output:
  assumes "\<forall>w \<in> set (get_workers (wait_for env None (pool st))).
             \<not> truthy_opt (w_result w) \<and> \<not> truthy_opt (w_error w)"
  shows "finish_fn env arguments st =
           (Inr (case arg_context arguments of
                   None \<Rightarrow>
                     (if get_workers (wait_for env None (pool st)) = []
                      then ''Task completed. No agents were spawned.''
                      else ''Task completed. Agents ran but produced no results.'')
                 | Some c \<Rightarrow>
                     (if c \<noteq> [] then c
                      else if get_workers (wait_for env None (pool st)) = []
                      then ''Task completed. No agents were spawned.''
                      else ''Task completed. Agents ran but produced no results.'')),
            st\<lparr>pool := wait_for env None (pool st), calls := calls st @ [WaitFor None]\<rparr>)"
proof -
  from assms have "gather_results (get_workers (wait_for env None (pool st))) = []"
    by (simp add: gather_results_empty_iff)
  then show ?thesis
    by (simp add: finish_fn_def Let_def py_or_def get_default_def split: option.splits)
qed

theorem finish_without_output_witness:
  "finish_fn demo_env \<lparr>arg_context = None\<rparr> empty_state =
     (Inr ''Task completed. No agents were spawned.'',
      empty_state\<lparr>calls := [WaitFor None]\<rparr>) \<and>
   finish_fn demo_env \<lparr>arg_context = Some ''Tested SSH access''\<rparr> empty_state =
     (Inr ''Tested SSH access'', empty_state\<lparr>calls := [WaitFor None]\<rparr>)"
proof -
  have h: "\<forall>w \<in> set (get_workers (wait_for demo_env None (pool empty_state))).
             \<not> truthy_opt (w_result w) \<and> \<not> truthy_opt (w_error w)"
    by (simp add: demo_env_def empty_state_def idle_wait_def get_workers_def)
  show ?thesis
    using finish_without_output [OF h, of "\<lparr>arg_context = None\<rparr>"]
      finish_without_output [OF h, of "\<lparr>arg_context = Some ''Tested SSH access''\<rparr>"]
    by (simp add: demo_env_def empty_state_def idle_wait_def get_workers_def)
qed

text \<open>
  C3.  Every \<open>finish\<close> call first calls \<open>wait_for\<close> with no id filter.  The blocks it
  gathers from the pool the wait left are, in order, one per worker record with a
  non-empty result or a non-empty error: the id, the task text, and the result or else
  the error.  When there is a block it makes exactly one further call, \<open>generate\<close>, with
  the fixed system instruction, no tools, and one user message whose prompt holds the
  context (a stock phrase when the context is empty) and the blocks joined by newlines;
  what it returns is the content of the response, or the exception \<open>generate\<close> raised.
\<close>

theorem finish_sequence:
  "(let p1 = wait_for env None (pool st);
        context = get_default (arg_context arguments) [];
        blocks = map (\<lambda>w. ''## '' @ w_id w @ '': '' @ w_task w @ nl @
                        (if truthy_opt (w_result w) then get_default (w_result w) []
                         else ''Error: '' @ get_default (w_error w) []))
                   (filter (\<lambda>w. truthy_opt (w_result w) \<or> truthy_opt (w_error w)) (get_workers p1));
        prompt = ''Synthesize these agent findings into a clear, concise summary.'' @ nl @ nl @
                 ''Context: '' @ (if context = [] then ''Penetration test task completed.'' else context) @
                 nl @ nl @ ''Agent Results:'' @ nl @ join nl blocks @ nl @ nl @
                 ''Provide a unified summary of what was accomplished and key findings.'';
        request = Generate
          ''You are synthesizing penetration test results. Be factual, clear, and concise.''
          [(''user'', prompt)] []
    in take (Suc (length (calls st))) (calls (snd (finish_fn env arguments st))) =
         calls st @ [WaitFor None] \<and>
       gather_results (get_workers p1) = blocks \<and>
       (blocks \<noteq> [] \<longrightarrow>
          calls (snd (finish_fn env arguments st)) = calls st @ [WaitFor None, request] \<and>
          fst (finish_fn env arguments st) =
            (case generate env
                    ''You are synthesizing penetration test results. Be factual, clear, and concise.''
                    [(''user'', prompt)] [] of
               Inl e \<Rightarrow> Inl e
             | Inr response \<Rightarrow> Inr (content response))))"
proof -
  let ?p1 = "wait_for env None (pool st)"
  let ?ws = "get_workers ?p1"
  have first: "take (Suc (length (calls st))) (calls (snd (finish_fn env arguments st))) =
      calls st @ [WaitFor None]"
    by (simp add: finish_fn_def Let_def split: sum.splits option.splits)
  have rest: "calls (snd (finish_fn env arguments st)) =
        calls st @ [WaitFor None, Generate synthesis_system_prompt
          [(''user'', synthesis_prompt (get_default (arg_context arguments) []) (gather_results ?ws))] []] \<and>
      fst (finish_fn env arguments st) =
        (case generate env synthesis_system_prompt
           [(''user'', synthesis_prompt (get_default (arg_context arguments) []) (gather_results ?ws))] [] of
           Inl e \<Rightarrow> Inl e | Inr response \<Rightarrow> Inr (content response))"
    if "gather_results ?ws \<noteq> []"
  proof -
    from that have "?ws \<noteq> []" by auto
    with that show ?thesis
      by (simp add: finish_fn_def Let_def split: sum.splits option.splits)
  qed
  note rest' = rest [unfolded synthesis_prompt_def synthesis_system_prompt_def py_or_def]
  show ?thesis
    unfolding Let_def gather_results_filter [symmetric]
    using first rest' by blast
qed

theorem finish_sequence_witness:
  "calls (snd (finish_fn demo_env \<lparr>arg_context = Some ''ssh audit''\<rparr> demo_state)) =
     [WaitFor None,
      Generate ''You are synthesizing penetration test results. Be factual, clear, and concise.''
        [(''user'',
          ''Synthesize these agent findings into a clear, concise summary.'' @ nl @ nl @
          ''Context: ssh audit'' @ nl @ nl @ ''Agent Results:'' @ nl @
          ''## agent-0: scan ports'' @ nl @ ''22/tcp open'' @ nl @ nl @
          ''Provide a unified summary of what was accomplished and key findings.'')] []] \<and>
   fst (finish_fn demo_env \<lparr>arg_context = Some ''ssh audit''\<rparr> demo_state) = Inr []"
  using finish_sequence [of demo_env demo_state "\<lparr>arg_context = Some ''ssh audit''\<rparr>"]
  by (simp add: Let_def demo_env_def demo_state_def idle_wait_def terse_llm_def
      get_workers_def done_worker_def truthy_opt_def get_default_def)

subsection \<open>spawn_agent\<close>

text \<open>
  C5, as amended.  A spawn request whose task description is empty or absent is answered
  with a validation error text; the pool's \<open>spawn\<close> is not called and the session is as
  it was.  A request with a non-empty description calls the pool's \<open>spawn\<close> once: when
  every dependency id is known to the pool and none leads back to the new task, the
  answer echoes the id just allocated and the pool holds the new pending record;
  otherwise the pool's validation error reaches the caller and the pool is unchanged.
\<close>

theorem spawn_agent_validates:
  "(let task = get_default (arg_task arguments) [];
        priority = get_default (arg_priority arguments) 1;
        depends_on = get_default (arg_depends_on arguments) [];
        agent_id = ''agent-'' @ show_nat (next_id (pool st));
        admitted = (list_all (\<lambda>d. list_ex (\<lambda>w. w_id w = d) (workers (pool st))) depends_on \<and>
                    list_all (\<lambda>d. \<not> reaches (length (workers (pool st))) (workers (pool st)) d agent_id)
                      depends_on)
    in (task = [] \<longrightarrow> spawn_agent_fn arguments st = (Inr ''Error: task is required'', st)) \<and>
       (task \<noteq> [] \<and> admitted \<longrightarrow>
          spawn_agent_fn arguments st =
            (Inr (''Spawned '' @ agent_id @ '': '' @ task),
             st\<lparr>pool := (pool st)\<lparr>workers := workers (pool st) @
                    [\<lparr>w_id = agent_id, w_task = task, w_priority = priority,
                      w_depends_on = depends_on, w_status = Pending, w_result = None,
                      w_error = None, w_tools_used = []\<rparr>],
                  next_id := Suc (next_id (pool st))\<rparr>,
                calls := calls st @ [Spawn task priority depends_on]\<rparr>)) \<and>
       (task \<noteq> [] \<and> \<not> admitted \<longrightarrow>
          (\<exists>m. fst (spawn_agent_fn arguments st) = Inl (PyExn ValidationError m)) \<and>
          snd (spawn_agent_fn arguments st) = st\<lparr>calls := calls st @ [Spawn task priority depends_on]\<rparr>))"
  by (auto simp add: spawn_agent_fn_def pool_spawn_def Let_def list_all_iff list_ex_iff)

theorem spawn_agent_validates_witness:
  "spawn_agent_fn \<lparr>arg_task = Some ''enumerate services'', arg_priority = None,
      arg_depends_on = Some [''agent-0'']\<rparr> demo_state =
     (Inr ''Spawned agent-1: enumerate services'',
      demo_state\<lparr>pool := (pool demo_state)\<lparr>workers := [done_worker,
             \<lparr>w_id = ''agent-1'', w_task = ''enumerate services'', w_priority = 1,
               w_depends_on = [''agent-0''], w_status = Pending, w_result = None,
               w_error = None, w_tools_used = []\<rparr>],
           next_id := 2\<rparr>,
         calls := [Spawn ''enumerate services'' 1 [''agent-0'']]\<rparr>) \<and>
   spawn_agent_fn \<lparr>arg_task = Some [], arg_priority = Some 5, arg_depends_on = None\<rparr> demo_state =
     (Inr ''Error: task is required'', demo_state)"
  using spawn_agent_validates [of "\<lparr>arg_task = Some ''enumerate services'', arg_priority = None,
      arg_depends_on = Some [''agent-0'']\<rparr>" demo_state]
    spawn_agent_validates [of "\<lparr>arg_task = Some [], arg_priority = Some 5, arg_depends_on = None\<rparr>"
      demo_state]
  by (simp add: Let_def demo_state_def done_worker_def get_default_def show_nat.simps digit_char_def)

text \<open>
  C5 as stated fails for a non-empty description: a request that names a dependency the
  pool does not know gets no agent id, the pool's validation error reaches the caller.
\<close>

theorem spawn_agent_unknown_dependency_counterexample:
  "spawn_agent_fn \<lparr>arg_task = Some ''scan ports'', arg_priority = None,
      arg_depends_on = Some [''agent-9'']\<rparr> empty_state =
     (Inl (PyExn ValidationError ''unknown dependency''),
      empty_state\<lparr>calls := [Spawn ''scan ports'' 1 [''agent-9'']]\<rparr>)"
  by (simp add: spawn_agent_fn_def pool_spawn_def Let_def empty_state_def get_default_def)

subsection \<open>formulate_strategy\<close>

text \<open>
  C6.  A \<open>formulate_strategy\<close> call with a non-empty problem and \<open>feasible\<close> false returns
  the mission-termination record, built from the problem and the rationale alone whatever
  candidates and selected id were given; it calls no collaborator and leaves the pool as
  it was.
\<close>

theorem formulate_strategy_infeasible:
  assumes "arg_problem arguments = Some problem" and "problem \<noteq> []"
    and "arg_feasible arguments = Some False"
  shows "formulate_strategy_fn arguments st =
           (Inr (''## Strategic Decision: TERMINATE MISSION'' @ nl @
                 ''**Problem:** '' @ problem @ nl @
                 ''**Rationale:** '' @ get_default (arg_rationale arguments) [] @ nl @ nl @
                 ''Mission marked as infeasible.''), st)"
  using assms by (simp add: formulate_strategy_fn_def get_default_def)

theorem formulate_strategy_infeasible_witness:
  "formulate_strategy_fn
     \<lparr>arg_problem = Some ''no route to target'',
      arg_candidates = Some [\<lparr>c_id = Some ''a'', c_name = Some ''pivot'', c_pros = None,
                              c_cons = None, c_risk = Some ''High''\<rparr>],
      arg_selected_id = Some ''zzz'', arg_rationale = Some ''out of scope'',
      arg_feasible = Some False\<rparr> demo_state =
     (Inr (''## Strategic Decision: TERMINATE MISSION'' @ nl @
           ''**Problem:** no route to target'' @ nl @
           ''**Rationale:** out of scope'' @ nl @ nl @ ''Mission marked as infeasible.''),
      demo_state)"
  using formulate_strategy_infeasible [of
     "\<lparr>arg_problem = Some ''no route to target'',
      arg_candidates = Some [\<lparr>c_id = Some ''a'', c_name = Some ''pivot'', c_pros = None,
                              c_cons = None, c_risk = Some ''High''\<rparr>],
      arg_selected_id = Some ''zzz'', arg_rationale = Some ''out of scope'',
      arg_feasible = Some False\<rparr>" "''no route to target''" demo_state]
  by (simp add: get_default_def)



subsection \<open>The task completion tool\<close>

lemma json_or_idem: "json_or (json_or a (JArr [])) (JArr []) = json_or a (JArr [])"
  by (simp add: json_or_def)

lemma wf_json_or: "wf_json a \<Longrightarrow> wf_json (json_or a (JArr []))"
  by (simp add: json_or_def)

lemma from_json_to_json:
  assumes "wf_json status_arg" and "wf_json summary_arg" and "wf_json findings_arg"
    and "wf_json artifacts_arg" and "wf_json recommendations_arg"
  shows "from_json (to_json (CompletionReport status_arg summary_arg findings_arg artifacts_arg
            recommendations_arg)) =
         Inr (CompletionReport status_arg summary_arg findings_arg artifacts_arg recommendations_arg)"
proof -
  let ?r = "CompletionReport status_arg summary_arg findings_arg artifacts_arg recommendations_arg"
  have "wf_json (JObj (to_dict ?r))"
    using assms by (simp add: to_dict_def CompletionReport_def wf_json_or)
  then have "json_loads (to_json ?r) = Inr (JObj (to_dict ?r))"
    unfolding to_json_def by (rule json_loads_dumps)
  then show ?thesis
    by (simp add: from_json_def to_dict_def CompletionReport_def get_default_def json_or_idem)
qed


text \<open>
  C8.  A completion report built by the constructor from JSON values, serialized with
  \<open>to_json\<close> and parsed back with \<open>from_json\<close>, gives a report with the same status,
  summary, findings, artifacts and recommendations.  (The objects inside the values have
  distinct keys, as every Python dictionary has.)
\<close>

theorem completion_report_roundtrip:
  assumes "wf_json status_arg" and "wf_json summary_arg" and "wf_json findings_arg"
    and "wf_json artifacts_arg" and "wf_json recommendations_arg"
    and "report = CompletionReport status_arg summary_arg findings_arg artifacts_arg recommendations_arg"
  shows "\<exists>parsed. from_json (to_json report) = Inr parsed \<and>
           status parsed = status report \<and> summary parsed = summary report \<and>
           findings parsed = findings report \<and> artifacts parsed = artifacts report \<and>
           recommendations parsed = recommendations report"
  using from_json_to_json [OF assms(1-5)] assms(6) by simp

theorem completion_report_roundtrip_witness:
  \<open>to_json (CompletionReport (JStr ''partial'') (JStr ''x'') (JArr [JStr ''f1'']) (JArr []) (JArr [])) =
     ''{"status": "partial", "summary": "x", "findings": ["f1"], "artifacts": [], "recommendations": []}'' \<and>
   (\<exists>parsed.
      from_json ''{"status": "partial", "summary": "x", "findings": ["f1"], "artifacts": [], "recommendations": []}'' =
        Inr parsed \<and>
      status parsed = JStr ''partial'' \<and> summary parsed = JStr ''x'' \<and>
      findings parsed = JArr [JStr ''f1''] \<and> artifacts parsed = JArr [] \<and>
      recommendations parsed = JArr [])\<close>
proof -
  have t: \<open>to_json (CompletionReport (JStr ''partial'') (JStr ''x'') (JArr [JStr ''f1'']) (JArr []) (JArr [])) =
     ''{"status": "partial", "summary": "x", "findings": ["f1"], "artifacts": [], "recommendations": []}''\<close>
    by (simp add: to_json_def to_dict_def CompletionReport_def json_or_def encode_string_def
        escape_char_def)
  show ?thesis
    using completion_report_roundtrip [of "JStr ''partial''" "JStr ''x''" "JArr [JStr ''f1'']"
        "JArr []" "JArr []", OF _ _ _ _ _ refl]
    unfolding t by (simp add: CompletionReport_def json_or_def)
qed

lemma startswith_append: "startswith (p @ s) p"
  by (simp add: startswith_def)

text \<open>
  C9.  For every arguments dictionary the output of the control tool \<open>finish\<close> starts with
  the sentinel, \<open>is_task_complete\<close> holds of it, and \<open>extract_completion_report\<close> gives
  back the report built from the arguments, field for field: the status and the summary
  given, or \<open>success\<close> and \<open>Task completed.\<close> when the key is absent; the findings,
  artifacts and recommendations given, or the empty list when the key is absent or its
  value is falsy.  For a text that does not start with the sentinel, \<open>is_task_complete\<close>
  is false, \<open>extract_completion_report\<close> returns nothing and
  \<open>extract_completion_summary\<close> returns the text unchanged.
\<close>

theorem finish_signal_roundtrip:
  assumes "\<forall>key v. arguments key = Some v \<longrightarrow> wf_json v"
  shows "startswith (finish arguments) ''__TASK_COMPLETE__'' \<and>
         is_task_complete (finish arguments) \<and>
         extract_completion_report (finish arguments) =
           Inr (Some
             \<lparr>status = (case arguments ''status'' of None \<Rightarrow> JStr ''success'' | Some v \<Rightarrow> v),
              summary = (case arguments ''summary'' of None \<Rightarrow> JStr ''Task completed.'' | Some v \<Rightarrow> v),
              findings = (case arguments ''findings'' of
                            None \<Rightarrow> JArr [] | Some v \<Rightarrow> if truthy v then v else JArr []),
              artifacts = (case arguments ''artifacts'' of
                             None \<Rightarrow> JArr [] | Some v \<Rightarrow> if truthy v then v else JArr []),
              recommendations = (case arguments ''recommendations'' of
                                   None \<Rightarrow> JArr [] | Some v \<Rightarrow> if truthy v then v else JArr [])\<rparr>) \<and>
         (\<not> startswith s ''__TASK_COMPLETE__'' \<longrightarrow>
            \<not> is_task_complete s \<and> extract_completion_report s = Inr None \<and>
            extract_completion_summary s = Inr (JStr s))"
proof -
  have wf: "wf_json (get_default (arguments key) d)" if "wf_json d" for key d
    using assms that by (cases "arguments key") (auto simp: get_default_def)
  let ?r = "CompletionReport
             (get_default (arguments ''status'') (JStr ''success''))
             (get_default (arguments ''summary'') (JStr ''Task completed.''))
             (get_default (arguments ''findings'') (JArr []))
             (get_default (arguments ''artifacts'') (JArr []))
             (get_default (arguments ''recommendations'') (JArr []))"
  have fields: "?r =
     \<lparr>status = (case arguments ''status'' of None \<Rightarrow> JStr ''success'' | Some v \<Rightarrow> v),
      summary = (case arguments ''summary'' of None \<Rightarrow> JStr ''Task completed.'' | Some v \<Rightarrow> v),
      findings = (case arguments ''findings'' of
                    None \<Rightarrow> JArr [] | Some v \<Rightarrow> if truthy v then v else JArr []),
      artifacts = (case arguments ''artifacts'' of
                     None \<Rightarrow> JArr [] | Some v \<Rightarrow> if truthy v then v else JArr []),
      recommendations = (case arguments ''recommendations'' of
                           None \<Rightarrow> JArr [] | Some v \<Rightarrow> if truthy v then v else JArr [])\<rparr>"
    by (simp add: CompletionReport_def get_default_def json_or_def split: option.splits)
  have out: "finish arguments = TASK_COMPLETE_SIGNAL @ CHR '':'' # to_json ?r"
    by (simp add: finish_def)
  have sw: "startswith (finish arguments) TASK_COMPLETE_SIGNAL"
    unfolding out by (rule startswith_append)
  have data: "drop (length TASK_COMPLETE_SIGNAL + 1) (finish arguments) = to_json ?r"
    unfolding out by simp
  have "from_json (to_json ?r) = Inr ?r"
    by (rule from_json_to_json) (simp_all add: wf)
  with sw data have "extract_completion_report (finish arguments) = Inr (Some ?r)"
    by (simp add: extract_completion_report_def is_task_complete_def)
  then have report: "extract_completion_report (finish arguments) =
      Inr (Some
         \<lparr>status = (case arguments ''status'' of None \<Rightarrow> JStr ''success'' | Some v \<Rightarrow> v),
          summary = (case arguments ''summary'' of None \<Rightarrow> JStr ''Task completed.'' | Some v \<Rightarrow> v),
          findings = (case arguments ''findings'' of
                        None \<Rightarrow> JArr [] | Some v \<Rightarrow> if truthy v then v else JArr []),
          artifacts = (case arguments ''artifacts'' of
                         None \<Rightarrow> JArr [] | Some v \<Rightarrow> if truthy v then v else JArr []),
          recommendations = (case arguments ''recommendations'' of
                               None \<Rightarrow> JArr [] | Some v \<Rightarrow> if truthy v then v else JArr [])\<rparr>)"
    by (simp only: fields)
  have other: "\<not> is_task_complete s \<and> extract_completion_report s = Inr None \<and>
            extract_completion_summary s = Inr (JStr s)"
    if "\<not> startswith s ''__TASK_COMPLETE__''"
    using that
    by (simp add: is_task_complete_def TASK_COMPLETE_SIGNAL_def extract_completion_report_def
        extract_completion_summary_def)
  from sw have sw': "startswith (finish arguments) ''__TASK_COMPLETE__''"
    by (simp add: TASK_COMPLETE_SIGNAL_def)
  from sw have tc: "is_task_complete (finish arguments)"
    by (simp add: is_task_complete_def)
  from sw' tc report other show ?thesis by blast
qed

theorem finish_signal_roundtrip_witness:
  "is_task_complete (finish partial_arguments) \<and>
   extract_completion_report (finish partial_arguments) =
     Inr (Some \<lparr>status = JStr ''partial'', summary = JStr ''Task completed.'',
                findings = JArr [JStr ''f1''], artifacts = JArr [], recommendations = JArr []\<rparr>) \<and>
   is_task_complete (finish no_arguments) \<and>
   extract_completion_report (finish no_arguments) =
     Inr (Some \<lparr>status = JStr ''success'', summary = JStr ''Task completed.'',
                findings = JArr [], artifacts = JArr [], recommendations = JArr []\<rparr>) \<and>
   extract_completion_report ''all done'' = Inr None \<and>
   extract_completion_summary ''all done'' = Inr (JStr ''all done'')"
proof -
  have h: "\<forall>key v. partial_arguments key = Some v \<longrightarrow> wf_json v"
    by (auto simp: partial_arguments_def split: if_splits)
  have h0: "\<forall>key v. no_arguments key = Some v \<longrightarrow> wf_json v"
    by (simp add: no_arguments_def)
  have v: "partial_arguments ''status'' = Some (JStr ''partial'')"
    "partial_arguments ''summary'' = None"
    "partial_arguments ''findings'' = Some (JArr [JStr ''f1''])"
    "partial_arguments ''artifacts'' = None"
    "partial_arguments ''recommendations'' = None"
    by (simp_all add: partial_arguments_def)
  have v0: "no_arguments ''status'' = None" "no_arguments ''summary'' = None"
    "no_arguments ''findings'' = None" "no_arguments ''artifacts'' = None"
    "no_arguments ''recommendations'' = None"
    by (simp_all add: no_arguments_def)
  show ?thesis
    using finish_signal_roundtrip [OF h, of "''all done''"]
      finish_signal_roundtrip [OF h0, of "''all done''"]
    by (simp add: v v0 startswith_def)
qed

subsection \<open>The file and code search tools\<close>

lemma subscript_cases:
  "subscript arguments key = (case arguments key of
      None \<Rightarrow> Inl (PyExn KeyError ([CHR 0x27] @ key @ [CHR 0x27])) | Some v \<Rightarrow> Inr v)"
  by (simp add: subscript_def)

lemma py_min_numeric:
  "py_min a (JInt n) = (case num_val a of
      Some x \<Rightarrow> Inr (if n < x then JInt n else a)
    | None \<Rightarrow> Inl (PyExn TypeError
          ([CHR 0x27] @ ''<'' @ [CHR 0x27] @ '' not supported between instances of '' @
           [CHR 0x27] @ ''int'' @ [CHR 0x27] @ '' and '' @ [CHR 0x27] @ type_name a @ [CHR 0x27])))"
  by (simp add: py_min_def num_val_def type_name_def split: option.splits json.splits)

text \<open>
  C4, as amended.  \<open>read_file\<close>, \<open>replace_in_file\<close> and \<open>search_code\<close> return a text and
  raise nothing for every arguments dictionary that holds the keys their schema requires
  (and, for \<open>search_code\<close>, whose \<open>context_lines\<close> is absent or a number); whatever goes
  wrong inside their \<open>try\<close> comes back as an error text that ends with the text of the
  exception.  A dictionary without a required key raises \<open>KeyError\<close>, and a
  \<open>context_lines\<close> that is not a number raises \<open>TypeError\<close>: both are evaluated before
  the \<open>try\<close>.
\<close>

theorem tools_return_text:
  "(case arguments ''path'' of
      None \<Rightarrow> read_file env arguments fs = Inl (PyExn KeyError ([CHR 0x27] @ ''path'' @ [CHR 0x27]))
    | Some filepath \<Rightarrow>
        (\<exists>text. read_file env arguments fs = Inr text \<and>
           (\<forall>kind msg.
              read_file_body env fs filepath (get_default (arguments ''start_line'') JNull)
                (get_default (arguments ''end_line'') JNull) = Inl (PyExn kind msg) \<longrightarrow>
              text = (if is_ValueError kind then ''Error: '' else ''Error reading file: '') @ msg))) \<and>
   (case (arguments ''path'', arguments ''old_string'', arguments ''new_string'') of
      (Some filepath, Some old_string, Some new_string) \<Rightarrow>
        (\<exists>text. fst (replace_in_file env arguments fs) = Inr text \<and>
           (\<forall>kind msg.
              fst (replace_in_file_body env fs filepath old_string new_string) = Inl (PyExn kind msg) \<longrightarrow>
              text = (if is_ValueError kind then ''Error: '' else ''Error replacing in file: '') @ msg))
    | _ \<Rightarrow> (\<exists>key. replace_in_file env arguments fs =
               (Inl (PyExn KeyError ([CHR 0x27] @ key @ [CHR 0x27])), fs))) \<and>
   (case arguments ''query'' of
      None \<Rightarrow> search_code senv arguments fs = Inl (PyExn KeyError ([CHR 0x27] @ ''query'' @ [CHR 0x27]))
    | Some query \<Rightarrow>
        (case num_val (get_default (arguments ''context_lines'') (JInt MAX_CONTEXT_LINES)) of
           None \<Rightarrow> (\<exists>msg. search_code senv arguments fs = Inl (PyExn TypeError msg))
         | Some n \<Rightarrow> (\<exists>text. search_code senv arguments fs = Inr text)))"
proof -
  have r: "case arguments ''path'' of
      None \<Rightarrow> read_file env arguments fs = Inl (PyExn KeyError ([CHR 0x27] @ ''path'' @ [CHR 0x27]))
    | Some filepath \<Rightarrow>
        (\<exists>text. read_file env arguments fs = Inr text \<and>
           (\<forall>kind msg.
              read_file_body env fs filepath (get_default (arguments ''start_line'') JNull)
                (get_default (arguments ''end_line'') JNull) = Inl (PyExn kind msg) \<longrightarrow>
              text = (if is_ValueError kind then ''Error: '' else ''Error reading file: '') @ msg))"
    by (simp add: read_file_def subscript_cases and_then_def Let_def handle_errors_def
        split: option.splits)
  have w: "case (arguments ''path'', arguments ''old_string'', arguments ''new_string'') of
      (Some filepath, Some old_string, Some new_string) \<Rightarrow>
        (\<exists>text. fst (replace_in_file env arguments fs) = Inr text \<and>
           (\<forall>kind msg.
              fst (replace_in_file_body env fs filepath old_string new_string) = Inl (PyExn kind msg) \<longrightarrow>
              text = (if is_ValueError kind then ''Error: '' else ''Error replacing in file: '') @ msg))
    | _ \<Rightarrow> (\<exists>key. replace_in_file env arguments fs =
               (Inl (PyExn KeyError ([CHR 0x27] @ key @ [CHR 0x27])), fs))"
    by (auto simp add: replace_in_file_def subscript_cases Let_def handle_errors_def
        split: option.splits prod.splits)
  have s: "case arguments ''query'' of
      None \<Rightarrow> search_code senv arguments fs = Inl (PyExn KeyError ([CHR 0x27] @ ''query'' @ [CHR 0x27]))
    | Some query \<Rightarrow>
        (case num_val (get_default (arguments ''context_lines'') (JInt MAX_CONTEXT_LINES)) of
           None \<Rightarrow> (\<exists>msg. search_code senv arguments fs = Inl (PyExn TypeError msg))
         | Some n \<Rightarrow> (\<exists>text. search_code senv arguments fs = Inr text))"
    by (simp add: search_code_def subscript_cases and_then_def Let_def py_min_numeric
        split: option.splits)
  from r w s show ?thesis by blast
qed

theorem tools_return_text_witness:
  "read_file plain_os read_arguments one_file =
     Inr (''File: notes.txt (lines 1-1 of 1)'' @ nl @ replicate 60 CHR ''-'' @ nl @ ''   1 | aaa'') \<and>
   read_file plain_os read_arguments Map.empty = Inr ''Error: File not found: notes.txt'' \<and>
   (\<exists>text. search_code plain_search search_arguments one_file = Inr text)"
proof -
  have a: "read_arguments ''path'' = Some (JStr ''notes.txt'')"
    "read_arguments ''start_line'' = None" "read_arguments ''end_line'' = None"
    by (simp_all add: read_arguments_def)
  have q: "search_arguments ''query'' = Some (JStr ''aa'')" "search_arguments ''context_lines'' = None"
    by (simp_all add: search_arguments_def)
  have r1: "read_file plain_os read_arguments one_file =
     Inr (''File: notes.txt (lines 1-1 of 1)'' @ nl @ replicate 60 CHR ''-'' @ nl @ ''   1 | aaa'')"
    by (simp add: read_file_def subscript_def a get_default_def and_then_def Let_def
        read_file_body_def validate_path_def make_path_def plain_os_def one_file_def
        read_content_def splitlines_def py_min_def py_max_def num_val_def handle_errors_def
        py_str_def show_nat.simps show_int_def digit_char_def format_4d_def is_linebreak_def
        numeral_3_eq_3)
  have r2: "read_file plain_os read_arguments Map.empty = Inr ''Error: File not found: notes.txt''"
    by (simp add: read_file_def subscript_def a get_default_def and_then_def Let_def
        read_file_body_def validate_path_def make_path_def plain_os_def handle_errors_def py_str_def)
  from tools_return_text [where arguments = search_arguments and env = plain_os
      and fs = one_file and senv = plain_search]
  have "\<exists>text. search_code plain_search search_arguments one_file = Inr text"
    by (simp add: q get_default_def num_val_def MAX_CONTEXT_LINES_def)
  with r1 r2 show ?thesis by blast
qed

text \<open>
  C4 as stated fails on a dictionary without the required key: \<open>arguments["path"]\<close> and
  \<open>arguments["query"]\<close> are read before the \<open>try\<close> and raise \<open>KeyError\<close>.
\<close>

theorem missing_required_key_counterexample:
  "read_file plain_os no_arguments one_file = Inl (PyExn KeyError ([CHR 0x27] @ ''path'' @ [CHR 0x27])) \<and>
   search_code plain_search no_arguments one_file =
     Inl (PyExn KeyError ([CHR 0x27] @ ''query'' @ [CHR 0x27]))"
  by (simp add: read_file_def search_code_def subscript_def no_arguments_def and_then_def)

subsection \<open>replace_in_file and the count of matches\<close>

lemma startswith_Nil [simp]: "startswith s []"
  by (simp add: startswith_def)

lemma startswith_drop_Suc: "startswith (drop (Suc i) (c # cs)) sub = startswith (drop i cs) sub"
  by simp

lemma count_from_zero_iff:
  assumes "sub \<noteq> []"
  shows "count_from sub s = 0 \<longleftrightarrow> (\<forall>i \<le> length s. \<not> startswith (drop i s) sub)"
proof (induction s)
  case Nil
  with assms show ?case by (simp add: startswith_def)
next
  case (Cons c cs)
  show ?case
  proof (cases "startswith (c # cs) sub")
    case True
    then have "\<exists>i \<le> length (c # cs). startswith (drop i (c # cs)) sub"
      by (intro exI [of _ 0]) simp
    with True show ?thesis by auto
  next
    case False
    have "(\<forall>i \<le> length (c # cs). \<not> startswith (drop i (c # cs)) sub) \<longleftrightarrow>
          (\<forall>i \<le> length cs. \<not> startswith (drop i cs) sub)"
    proof
      assume a: "\<forall>i \<le> length (c # cs). \<not> startswith (drop i (c # cs)) sub"
      show "\<forall>i \<le> length cs. \<not> startswith (drop i cs) sub"
      proof (intro allI impI)
        fix i assume "i \<le> length cs"
        then have "\<not> startswith (drop (Suc i) (c # cs)) sub" using a by auto
        then show "\<not> startswith (drop i cs) sub" by simp
      qed
    next
      assume a: "\<forall>i \<le> length cs. \<not> startswith (drop i cs) sub"
      show "\<forall>i \<le> length (c # cs). \<not> startswith (drop i (c # cs)) sub"
      proof (intro allI impI)
        fix i assume i: "i \<le> length (c # cs)"
        show "\<not> startswith (drop i (c # cs)) sub"
        proof (cases i)
          case 0
          with False show ?thesis by simp
        next
          case (Suc j)
          with i a show ?thesis by simp
        qed
      qed
    qed
    with False Cons show ?thesis by simp
  qed
qed

lemma occurrences_empty_iff:
  "occurrences s sub = [] \<longleftrightarrow> (\<forall>i \<le> length s. \<not> startswith (drop i s) sub)"
  by (auto simp: occurrences_def filter_empty_conv less_Suc_eq_le)

lemma py_count_zero_iff: "py_count s sub = 0 \<longleftrightarrow> occurrences s sub = []"
proof (cases "sub = []")
  case True
  then have "occurrences s sub \<noteq> []"
    by (auto simp: occurrences_empty_iff)
  with True show ?thesis by (simp add: py_count_def)
next
  case False
  then show ?thesis
    by (simp add: py_count_def count_from_zero_iff occurrences_empty_iff)
qed

lemma py_replace_first_at:
  assumes "startswith (drop i s) old" and "\<forall>j < i. \<not> startswith (drop j s) old" and "i \<le> length s"
  shows "py_replace_first s old new = take i s @ new @ drop (i + length old) s"
  using assms
proof (induction s arbitrary: i)
  case Nil
  then show ?case by (simp add: startswith_def)
next
  case (Cons c cs)
  show ?case
  proof (cases i)
    case 0
    with Cons.prems show ?thesis by simp
  next
    case (Suc k)
    with Cons.prems have nf: "\<not> startswith (c # cs) old" by force
    have a: "startswith (drop k cs) old" using Cons.prems(1) Suc by simp
    have b: "\<forall>j < k. \<not> startswith (drop j cs) old"
    proof (intro allI impI)
      fix j assume "j < k"
      then have "\<not> startswith (drop (Suc j) (c # cs)) old" using Cons.prems(2) Suc by auto
      then show "\<not> startswith (drop j cs) old" by simp
    qed
    have "k \<le> length cs" using Cons.prems(3) Suc by simp
    from Cons.IH [OF a b this] nf Suc show ?thesis by simp
  qed
qed

text \<open>
  What \<open>replace_in_file\<close> does once the file is read, for texts \<open>old\<close> and \<open>new\<close>: with a
  count other than one it returns an error text and leaves the file system as it was;
  with a count of one it writes the content in which the leftmost occurrence of \<open>old\<close> is
  replaced by \<open>new\<close>.  A count of zero means no occurrence.
\<close>

lemma replace_in_file_body_by_count:
  assumes "validate_path env filepath = Inr path" and "path_exists env fs path = Inr True"
    and "read_content env fs path = Inr contents"
  shows "(py_count contents old \<noteq> 1 \<longrightarrow>
            snd (replace_in_file_body env fs filepath (JStr old) (JStr new)) = fs \<and>
            (\<exists>msg. fst (replace_in_file_body env fs filepath (JStr old) (JStr new)) =
                     Inr (''Error: '' @ msg))) \<and>
         (py_count contents old = 1 \<longrightarrow>
            (\<exists>i \<le> length contents.
               startswith (drop i contents) old \<and> (\<forall>j < i. \<not> startswith (drop j contents) old) \<and>
               snd (replace_in_file_body env fs filepath (JStr old) (JStr new)) =
                 snd (write_text env fs path
                        (take i contents @ new @ drop (i + length old) contents)))) \<and>
         (py_count contents old = 0 \<longleftrightarrow> occurrences contents old = [])"
proof -
  have other: "snd (replace_in_file_body env fs filepath (JStr old) (JStr new)) = fs \<and>
            (\<exists>msg. fst (replace_in_file_body env fs filepath (JStr old) (JStr new)) =
                     Inr (''Error: '' @ msg))"
    if "py_count contents old \<noteq> 1"
    using that assms by (auto simp: replace_in_file_body_def Let_def)
  have one: "\<exists>i \<le> length contents.
               startswith (drop i contents) old \<and> (\<forall>j < i. \<not> startswith (drop j contents) old) \<and>
               snd (replace_in_file_body env fs filepath (JStr old) (JStr new)) =
                 snd (write_text env fs path
                        (take i contents @ new @ drop (i + length old) contents))"
    if c: "py_count contents old = 1"
  proof -
    from c have "occurrences contents old \<noteq> []"
      using py_count_zero_iff [of contents old] by simp
    then have ex: "\<exists>i. i \<le> length contents \<and> startswith (drop i contents) old"
      by (auto simp: occurrences_empty_iff)
    define i where "i = (LEAST i. i \<le> length contents \<and> startswith (drop i contents) old)"
    from ex have i: "i \<le> length contents" "startswith (drop i contents) old"
      unfolding i_def by (metis (mono_tags, lifting) LeastI_ex)+
    have least: "\<forall>j < i. \<not> startswith (drop j contents) old"
    proof (intro allI impI)
      fix j assume "j < i"
      then have "\<not> (j \<le> length contents \<and> startswith (drop j contents) old)"
        unfolding i_def by (rule not_less_Least)
      moreover from \<open>j < i\<close> i(1) have "j \<le> length contents" by simp
      ultimately show "\<not> startswith (drop j contents) old" by simp
    qed
    have "py_replace_first contents old new = take i contents @ new @ drop (i + length old) contents"
      by (rule py_replace_first_at [OF i(2) least i(1)])
    then have "snd (replace_in_file_body env fs filepath (JStr old) (JStr new)) =
                 snd (write_text env fs path
                        (take i contents @ new @ drop (i + length old) contents))"
      using c assms by (simp add: replace_in_file_body_def Let_def split: prod.splits option.splits)
    with i least show ?thesis by blast
  qed
  from other one py_count_zero_iff [of contents old] show ?thesis by blast
qed


lemma count_from_at_first:
  assumes "sub \<noteq> []" and "startswith (drop i s) sub" and "\<forall>j < i. \<not> startswith (drop j s) sub"
    and "i \<le> length s"
  shows "count_from sub s = Suc (count_from sub (drop (i + length sub) s))"
  using assms(2-4)
proof (induction s arbitrary: i)
  case Nil
  with assms(1) show ?case by (simp add: startswith_def)
next
  case (Cons c cs)
  show ?case
  proof (cases i)
    case 0
    from assms(1) obtain n where "length sub = Suc n" by (cases sub) auto
    with 0 Cons.prems show ?thesis by simp
  next
    case (Suc k)
    with Cons.prems have nf: "\<not> startswith (c # cs) sub" by force
    have a: "startswith (drop k cs) sub" using Cons.prems(1) Suc by simp
    have b: "\<forall>j < k. \<not> startswith (drop j cs) sub"
    proof (intro allI impI)
      fix j assume "j < k"
      then have "\<not> startswith (drop (Suc j) (c # cs)) sub" using Cons.prems(2) Suc by auto
      then show "\<not> startswith (drop j cs) sub" by simp
    qed
    have "k \<le> length cs" using Cons.prems(3) Suc by simp
    from Cons.IH [OF a b this] nf Suc show ?thesis by simp
  qed
qed

text \<open>
  When \<open>count\<close> reports one match: there is an occurrence, and no occurrence starts at or
  after the end of the leftmost one.  Occurrences that overlap the leftmost one are not
  counted.
\<close>

lemma py_count_one_iff:
  assumes "sub \<noteq> []"
  shows "py_count s sub = 1 \<longleftrightarrow>
     (\<exists>i \<le> length s. startswith (drop i s) sub \<and> (\<forall>j < i. \<not> startswith (drop j s) sub) \<and>
        (\<forall>j \<ge> i + length sub. j \<le> length s \<longrightarrow> \<not> startswith (drop j s) sub))"
proof
  assume c: "py_count s sub = 1"
  then have "occurrences s sub \<noteq> []"
    using py_count_zero_iff [of s sub] by simp
  then have ex: "\<exists>i. i \<le> length s \<and> startswith (drop i s) sub"
    by (auto simp: occurrences_empty_iff)
  define i where "i = (LEAST i. i \<le> length s \<and> startswith (drop i s) sub)"
  from ex have i: "i \<le> length s" "startswith (drop i s) sub"
    unfolding i_def by (metis (mono_tags, lifting) LeastI_ex)+
  have least: "\<forall>j < i. \<not> startswith (drop j s) sub"
  proof (intro allI impI)
    fix j assume "j < i"
    then have "\<not> (j \<le> length s \<and> startswith (drop j s) sub)"
      unfolding i_def by (rule not_less_Least)
    moreover from \<open>j < i\<close> i(1) have "j \<le> length s" by simp
    ultimately show "\<not> startswith (drop j s) sub" by simp
  qed
  from count_from_at_first [OF assms i(2) least i(1)] c assms
  have z: "count_from sub (drop (i + length sub) s) = 0"
    by (simp add: py_count_def)
  have "\<forall>j \<ge> i + length sub. j \<le> length s \<longrightarrow> \<not> startswith (drop j s) sub"
  proof (intro allI impI)
    fix j assume j: "i + length sub \<le> j" "j \<le> length s"
    then have "j - (i + length sub) \<le> length (drop (i + length sub) s)" by simp
    with z have "\<not> startswith (drop (j - (i + length sub)) (drop (i + length sub) s)) sub"
      using count_from_zero_iff [OF assms, of "drop (i + length sub) s"] by blast
    with j show "\<not> startswith (drop j s) sub" by simp
  qed
  with i least show "\<exists>i \<le> length s. startswith (drop i s) sub \<and>
      (\<forall>j < i. \<not> startswith (drop j s) sub) \<and>
      (\<forall>j \<ge> i + length sub. j \<le> length s \<longrightarrow> \<not> startswith (drop j s) sub)"
    by blast
next
  assume "\<exists>i \<le> length s. startswith (drop i s) sub \<and> (\<forall>j < i. \<not> startswith (drop j s) sub) \<and>
        (\<forall>j \<ge> i + length sub. j \<le> length s \<longrightarrow> \<not> startswith (drop j s) sub)"
  then obtain i where i: "i \<le> length s" "startswith (drop i s) sub"
    and least: "\<forall>j < i. \<not> startswith (drop j s) sub"
    and after: "\<forall>j \<ge> i + length sub. j \<le> length s \<longrightarrow> \<not> startswith (drop j s) sub"
    by blast
  have "\<forall>k \<le> length (drop (i + length sub) s). \<not> startswith (drop k (drop (i + length sub) s)) sub"
  proof (intro allI impI)
    fix k assume k: "k \<le> length (drop (i + length sub) s)"
    show "\<not> startswith (drop k (drop (i + length sub) s)) sub"
    proof (cases "i + length sub \<le> length s")
      case True
      with k have "k + (i + length sub) \<le> length s" by simp
      with after have "\<not> startswith (drop (k + (i + length sub)) s) sub" by simp
      then show ?thesis by (simp add: add.commute)
    next
      case False
      with assms show ?thesis by (simp add: startswith_def)
    qed
  qed
  then have "count_from sub (drop (i + length sub) s) = 0"
    using count_from_zero_iff [OF assms] by blast
  with count_from_at_first [OF assms i(2) least i(1)] assms show "py_count s sub = 1"
    by (simp add: py_count_def)
qed

lemma py_count_single_occurrence:
  assumes "occurrences s sub = [i]"
  shows "py_count s sub = 1"
proof (cases "sub = []")
  case True
  then have "occurrences s sub = [0 ..< Suc (length s)]"
    by (simp add: occurrences_def)
  with assms have "length [0 ..< Suc (length s)] = 1" by simp
  then have "s = []" by simp
  with True show ?thesis by (simp add: py_count_def)
next
  case False
  have mem: "\<And>j. j \<in> set (occurrences s sub) \<longleftrightarrow> j \<le> length s \<and> startswith (drop j s) sub"
    by (simp add: occurrences_def less_Suc_eq_le del: upt_Suc)
  from assms have only: "\<And>j. j \<le> length s \<and> startswith (drop j s) sub \<longleftrightarrow> j = i"
    using mem by simp
  then have "i \<le> length s" "startswith (drop i s) sub" by blast+
  moreover have "\<forall>j < i. \<not> startswith (drop j s) sub"
    using only \<open>i \<le> length s\<close> by (metis le_trans less_imp_le_nat less_irrefl)
  moreover have "\<forall>j \<ge> i + length sub. j \<le> length s \<longrightarrow> \<not> startswith (drop j s) sub"
  proof (intro allI impI)
    fix j assume "i + length sub \<le> j" "j \<le> length s"
    moreover from False have "length sub > 0" by simp
    ultimately have "j \<noteq> i" "j \<le> length s" by linarith+
    with only show "\<not> startswith (drop j s) sub" by blast
  qed
  ultimately show ?thesis
    using py_count_one_iff [OF False, of s] by blast
qed

text \<open>
  C10 at the failing input.  The file holds \<open>aaa\<close> and \<open>old_string\<close> is \<open>aa\<close>, which
  stands at positions 0 and 1; \<open>count\<close> resumes after the first occurrence and reports
  one match, so \<open>replace_in_file\<close> rewrites the file to \<open>ba\<close> where two matches call for
  the error.
\<close>

theorem replace_in_file_overlapping_matches:
  "occurrences ''aaa'' ''aa'' = [0, 1] \<and>
   py_count ''aaa'' ''aa'' = 1 \<and>
   replace_in_file plain_os replace_arguments one_file =
     (Inr (''Replaced in notes.txt:'' @ nl @ ''- '' @ [CHR 0x27] @ ''aa'' @ [CHR 0x27] @ nl @
           ''+ '' @ [CHR 0x27] @ ''b'' @ [CHR 0x27]),
      one_file([''notes.txt''] \<mapsto> ''ba''))"
proof -
  have a: "replace_arguments ''path'' = Some (JStr ''notes.txt'')"
    "replace_arguments ''old_string'' = Some (JStr ''aa'')"
    "replace_arguments ''new_string'' = Some (JStr ''b'')"
    by (simp_all add: replace_arguments_def)
  have o: "occurrences ''aaa'' ''aa'' = [0, 1]"
    by (simp add: occurrences_def startswith_def upt_rec)
  have c: "py_count ''aaa'' ''aa'' = 1"
    by (simp add: py_count_def startswith_def)
  have f: "one_file [''notes.txt''] = Some ''aaa''"
    by (simp add: one_file_def)
  have "replace_in_file plain_os replace_arguments one_file =
     (Inr (''Replaced in notes.txt:'' @ nl @ ''- '' @ [CHR 0x27] @ ''aa'' @ [CHR 0x27] @ nl @
           ''+ '' @ [CHR 0x27] @ ''b'' @ [CHR 0x27]),
      one_file([''notes.txt''] \<mapsto> ''ba''))"
    by (simp add: replace_in_file_def subscript_def a replace_in_file_body_def validate_path_def
        make_path_def and_then_def plain_os_def f read_content_def c Let_def startswith_def
        handle_errors_def py_str_def preview_def)
  with o c show ?thesis by blast
qed

end
